theory Spec2Isabelle
  imports Main "HOL-Library.Word" "HOL-Library.Sublist"
begin

chapter \<open>The plugin configuration and orchestration core of pipeline/config.go\<close>

section \<open>Parsed TOML and the decoder library\<close>

text \<open>
  A \<open>toml.Primitive\<close> is an already parsed, not yet typed TOML datum. A table is kept as
  an association list in the iteration order of the Go map (which the runtime picks);
  keys of one table are pairwise different.
\<close>

datatype toml =
    TString string
  | TInt int
  | TBool bool
  | TFloat string
  | TDatetime string
  | TArray "toml list"
  | TTable "(string \<times> toml) list"

text \<open>
  The decoder is the external TOML library. Its struct decoding looks a field up by its
  \<open>toml\<close> tag (or its Go name when there is no tag), first exactly and then ignoring
  case. Only the ASCII letters are folded here.
\<close>

fun toLower :: "char \<Rightarrow> char" where
  "toLower (Char b0 b1 b2 b3 b4 b5 b6 b7) =
     (let n = (of_char (Char b0 b1 b2 b3 b4 b5 b6 b7) :: nat) in
      if 65 \<le> n \<and> n \<le> 90 then Char b0 b1 b2 b3 b4 True b6 b7
      else Char b0 b1 b2 b3 b4 b5 b6 b7)"

definition keyFold :: "string \<Rightarrow> string \<Rightarrow> bool" where
  "keyFold a b = (map toLower a = map toLower b)"

definition insensitiveGet :: "(string \<times> toml) list \<Rightarrow> string \<Rightarrow> toml option" where
  "insensitiveGet tmap kname =
     (case map_of tmap kname of
        Some datum \<Rightarrow> Some datum
      | None \<Rightarrow> map_option snd (find (\<lambda>kv. keyFold kname (fst kv)) tmap))"

text \<open>The decoder's errors are texts; only these are produced by the model.\<close>

definition typeMismatch :: "string \<Rightarrow> string" where
  "typeMismatch kname = ''Type mismatch for '' @ kname"

text \<open>One field of a target struct: absent keys leave the field as it was.\<close>

definition unifyString :: "(string \<times> toml) list \<Rightarrow> string \<Rightarrow> string \<Rightarrow> string + string" where
  "unifyString tmap kname old =
     (case insensitiveGet tmap kname of
        None \<Rightarrow> Inr old
      | Some (TString s) \<Rightarrow> Inr s
      | Some _ \<Rightarrow> Inl (typeMismatch kname))"

definition unifyInt :: "(string \<times> toml) list \<Rightarrow> string \<Rightarrow> int \<Rightarrow> string + int" where
  "unifyInt tmap kname old =
     (case insensitiveGet tmap kname of
        None \<Rightarrow> Inr old
      | Some (TInt i) \<Rightarrow> Inr i
      | Some _ \<Rightarrow> Inl (typeMismatch kname))"

definition unifyUint :: "(string \<times> toml) list \<Rightarrow> string \<Rightarrow> nat \<Rightarrow> string + nat" where
  "unifyUint tmap kname old =
     (case insensitiveGet tmap kname of
        None \<Rightarrow> Inr old
      | Some (TInt i) \<Rightarrow> (if i < 0 then Inl (typeMismatch kname) else Inr (nat i))
      | Some _ \<Rightarrow> Inl (typeMismatch kname))"

text \<open>A \<open>*bool\<close> field: \<open>None\<close> is the nil pointer (the setting was left out).\<close>

definition unifyBoolPtr ::
  "(string \<times> toml) list \<Rightarrow> string \<Rightarrow> bool option \<Rightarrow> string + bool option" where
  "unifyBoolPtr tmap kname old =
     (case insensitiveGet tmap kname of
        None \<Rightarrow> Inr old
      | Some (TBool b) \<Rightarrow> Inr (Some b)
      | Some _ \<Rightarrow> Inl (typeMismatch kname))"

section \<open>Retry options and the common configuration structs\<close>

record RetryOptions =
  MaxDelay :: string
  Delay :: string
  MaxJitter :: string
  MaxRetries :: int

definition getDefaultRetryOptions :: RetryOptions where
  "getDefaultRetryOptions =
     \<lparr>MaxDelay = ''30s'', Delay = ''250ms'', MaxJitter = '''', MaxRetries = - 1\<rparr>"

definition unifyRetryOptions ::
  "(string \<times> toml) list \<Rightarrow> string \<Rightarrow> RetryOptions \<Rightarrow> string + RetryOptions" where
  "unifyRetryOptions tmap kname old =
     (case insensitiveGet tmap kname of
        None \<Rightarrow> Inr old
      | Some (TTable sub) \<Rightarrow>
          (case unifyString sub ''max_delay'' (MaxDelay old) of
             Inl e \<Rightarrow> Inl e
           | Inr md \<Rightarrow>
          (case unifyString sub ''Delay'' (Delay old) of
             Inl e \<Rightarrow> Inl e
           | Inr d \<Rightarrow>
          (case unifyString sub ''max_jitter'' (MaxJitter old) of
             Inl e \<Rightarrow> Inl e
           | Inr mj \<Rightarrow>
          (case unifyInt sub ''max_retries'' (MaxRetries old) of
             Inl e \<Rightarrow> Inl e
           | Inr mr \<Rightarrow>
               Inr \<lparr>MaxDelay = md, Delay = d, MaxJitter = mj, MaxRetries = mr\<rparr>))))
      | Some _ \<Rightarrow> Inl (typeMismatch kname))"

record CommonConfig =
  Typ :: string

record CommonInputConfig =
  in_Ticker :: nat
  in_Decoder :: string
  SyncDecode :: "bool option"
  SendDecodeFailures :: "bool option"
  in_Retries :: RetryOptions

record CommonFOConfig =
  fo_Ticker :: nat
  Matcher :: string
  Signer :: string
  CanExit :: "bool option"
  fo_Retries :: RetryOptions
  fo_Encoder :: string
  UseFraming :: "bool option"

text \<open>\<open>commonTypedConfig\<close> is an \<open>interface{}\<close>: nil, or one of the two structs.\<close>

datatype commonTyped =
    NoCommonTyped
  | CommonInput CommonInputConfig
  | CommonFO CommonFOConfig

text \<open>\<open>toml.PrimitiveDecode\<close> into each of the three structs, field by field.\<close>

definition decodeCommonConfig :: "toml \<Rightarrow> CommonConfig \<Rightarrow> string + CommonConfig" where
  "decodeCommonConfig sec c =
     (case sec of
        TTable tmap \<Rightarrow>
          (case unifyString tmap ''type'' (Typ c) of
             Inl e \<Rightarrow> Inl e
           | Inr t \<Rightarrow> Inr (c\<lparr>Typ := t\<rparr>))
      | _ \<Rightarrow> Inl (typeMismatch ''CommonConfig''))"

definition decodeCommonInput :: "toml \<Rightarrow> CommonInputConfig \<Rightarrow> string + CommonInputConfig" where
  "decodeCommonInput sec c =
     (case sec of
        TTable tmap \<Rightarrow>
          (case unifyUint tmap ''ticker_interval'' (in_Ticker c) of
             Inl e \<Rightarrow> Inl e
           | Inr t \<Rightarrow>
          (case unifyString tmap ''Decoder'' (in_Decoder c) of
             Inl e \<Rightarrow> Inl e
           | Inr d \<Rightarrow>
          (case unifyBoolPtr tmap ''synchronous_decode'' (SyncDecode c) of
             Inl e \<Rightarrow> Inl e
           | Inr sd \<Rightarrow>
          (case unifyBoolPtr tmap ''send_decode_failures'' (SendDecodeFailures c) of
             Inl e \<Rightarrow> Inl e
           | Inr sf \<Rightarrow>
          (case unifyRetryOptions tmap ''Retries'' (in_Retries c) of
             Inl e \<Rightarrow> Inl e
           | Inr r \<Rightarrow>
               Inr \<lparr>in_Ticker = t, in_Decoder = d, SyncDecode = sd,
                    SendDecodeFailures = sf, in_Retries = r\<rparr>)))))
      | _ \<Rightarrow> Inl (typeMismatch ''CommonInputConfig''))"

definition decodeCommonFO :: "toml \<Rightarrow> CommonFOConfig \<Rightarrow> string + CommonFOConfig" where
  "decodeCommonFO sec c =
     (case sec of
        TTable tmap \<Rightarrow>
          (case unifyUint tmap ''ticker_interval'' (fo_Ticker c) of
             Inl e \<Rightarrow> Inl e
           | Inr t \<Rightarrow>
          (case unifyString tmap ''message_matcher'' (Matcher c) of
             Inl e \<Rightarrow> Inl e
           | Inr m \<Rightarrow>
          (case unifyString tmap ''message_signer'' (Signer c) of
             Inl e \<Rightarrow> Inl e
           | Inr s \<Rightarrow>
          (case unifyBoolPtr tmap ''can_exit'' (CanExit c) of
             Inl e \<Rightarrow> Inl e
           | Inr ce \<Rightarrow>
          (case unifyRetryOptions tmap ''Retries'' (fo_Retries c) of
             Inl e \<Rightarrow> Inl e
           | Inr r \<Rightarrow>
          (case unifyString tmap ''Encoder'' (fo_Encoder c) of
             Inl e \<Rightarrow> Inl e
           | Inr en \<Rightarrow>
          (case unifyBoolPtr tmap ''use_framing'' (UseFraming c) of
             Inl e \<Rightarrow> Inl e
           | Inr uf \<Rightarrow>
               Inr \<lparr>fo_Ticker = t, Matcher = m, Signer = s, CanExit = ce,
                    fo_Retries = r, fo_Encoder = en, UseFraming = uf\<rparr>)))))))
      | _ \<Rightarrow> Inl (typeMismatch ''CommonFOConfig''))"

section \<open>Plugin types, plugin instances and the registry\<close>

text \<open>
  \<open>configStruct\<close> is an \<open>interface{}\<close>: nil, the generic \<open>PluginConfig\<close> map, or a
  struct of the plugin's own, kept as its fields (each under the key its \<open>toml\<close> tag or
  Go name gives it) with their current values.
\<close>

datatype config =
    NilConfig
  | PluginConfigMap "(string \<times> toml) list"
  | ConfigStruct "(string \<times> toml) list"

text \<open>
  What a registered factory produces is known by the interfaces its dynamic type
  satisfies: \<open>Plugin\<close> (with its \<open>Init\<close>), \<open>WantsPipelineConfig\<close>, \<open>WantsName\<close>,
  \<open>HasConfigStruct\<close> (with what \<open>ConfigStruct()\<close> returns) and \<open>Encoder\<close>. \<open>Init\<close> is
  taken as a function of the configuration it is handed: \<open>None\<close> is the nil error.
\<close>

record pluginType =
  isPlugin :: bool
  wantsPipelineConfig :: bool
  wantsName :: bool
  hasConfigStruct :: "config option"
  Init :: "config \<Rightarrow> string option"
  isEncoder :: bool

text \<open>
  Plugin instances live in a store; the address of an instance is its reference
  identity. A factory allocates: each call yields the next unused address.
\<close>

type_synonym addr = nat

record pluginObj =
  dynType :: pluginType
  objPConfig :: bool
  objName :: "string option"
  objInit :: "config option"

type_synonym heap = "pluginObj list"

definition deref :: "heap \<Rightarrow> addr \<Rightarrow> pluginObj option" where
  "deref h p = (if p < length h then Some (h ! p) else None)"

text \<open>A call returns, or it panics (a failed type assertion).\<close>

datatype 'a outcome = Return 'a | Panic

section \<open>The plugin maker\<close>

text \<open>
  \<open>PluginTypeRegex\<close> is anchored at the end of the type name, and none of its five
  words is a suffix of another: the match is the one word the name ends with.
\<close>

definition getPluginCategory :: "string \<Rightarrow> string" where
  "getPluginCategory pluginType =
     (case find (\<lambda>c. suffix c pluginType)
             [''Decoder'', ''Encoder'', ''Filter'', ''Input'', ''Output''] of
        None \<Rightarrow> []
      | Some c \<Rightarrow> c)"

record pluginMaker =
  name :: string
  category :: string
  tomlSection :: toml
  commonConfig :: CommonConfig
  commonTypedConfig :: commonTyped
  constructor :: pluginType
  configStruct :: config
  configPrepped :: bool
  plugin :: "addr option"

definition apos :: string where
  "apos = [CHR 0x27]"

definition NewPluginMaker ::
  "(string \<rightharpoonup> pluginType) \<Rightarrow> string \<Rightarrow> toml \<Rightarrow> string + pluginMaker" where
  "NewPluginMaker AvailablePlugins nm sec =
     (case decodeCommonConfig sec \<lparr>Typ = []\<rparr> of
        Inl err \<Rightarrow> Inl (''can't decode common config for '' @ apos @ nm @ apos @ '': '' @ err)
      | Inr cc0 \<Rightarrow>
          (let cc = (if Typ cc0 = [] then cc0\<lparr>Typ := nm\<rparr> else cc0) in
           case AvailablePlugins (Typ cc) of
             None \<Rightarrow> Inl (''No registered plugin type: '' @ Typ cc)
           | Some ctor \<Rightarrow>
               (let cat = getPluginCategory (Typ cc) in
                if cat = [] then Inl ''Unrecognized plugin category''
                else
                  (case (if cat = ''Input''
                         then map_sum id CommonInput
                                (decodeCommonInput sec
                                   \<lparr>in_Ticker = 0, in_Decoder = [], SyncDecode = None,
                                    SendDecodeFailures = None,
                                    in_Retries = getDefaultRetryOptions\<rparr>)
                         else if cat = ''Filter'' \<or> cat = ''Output''
                         then map_sum id CommonFO
                                (decodeCommonFO sec
                                   \<lparr>fo_Ticker = 0, Matcher = [], Signer = [],
                                    CanExit = None, fo_Retries = getDefaultRetryOptions,
                                    fo_Encoder = [], UseFraming = None\<rparr>)
                         else Inr NoCommonTyped) of
                     Inl err \<Rightarrow>
                       Inl (''can't decode common '' @ map toLower cat @ '' config for ''
                            @ apos @ nm @ apos @ '': '' @ err)
                   | Inr typed \<Rightarrow>
                       Inr \<lparr>name = nm, category = cat, tomlSection = sec,
                            commonConfig = cc, commonTypedConfig = typed,
                            constructor = ctor, configStruct = NilConfig,
                            configPrepped = False, plugin = None\<rparr>))))"

text \<open>
  \<open>makePlugin\<close>: the factory allocates an instance, the assertion \<open>.(Plugin)\<close> panics on
  anything else, and the two optional setters are called.
\<close>

definition makePlugin :: "pluginMaker \<Rightarrow> heap \<Rightarrow> addr outcome \<times> heap" where
  "makePlugin m h =
     (let t = constructor m;
          fresh = \<lparr>dynType = t, objPConfig = False, objName = None, objInit = None\<rparr>
      in if \<not> isPlugin t then (Panic, h @ [fresh])
         else
           (let p1 = (if wantsPipelineConfig t then fresh\<lparr>objPConfig := True\<rparr> else fresh);
                p2 = (if wantsName t then p1\<lparr>objName := Some (name m)\<rparr> else p1)
            in (Return (length h), h @ [p2])))"

text \<open>The cached instance is created when there is none, and kept in \<open>plugin\<close>.\<close>

definition ensurePlugin :: "pluginMaker \<Rightarrow> heap \<Rightarrow> pluginMaker outcome \<times> heap" where
  "ensurePlugin m h =
     (case plugin m of
        None \<Rightarrow>
          (case makePlugin m h of
             (Panic, h1) \<Rightarrow> (Panic, h1)
           | (Return p, h1) \<Rightarrow> (Return (m\<lparr>plugin := Some p\<rparr>), h1))
      | Some p \<Rightarrow> (Return m, h))"

definition makeConfig :: "pluginMaker \<Rightarrow> heap \<Rightarrow> pluginMaker outcome \<times> heap" where
  "makeConfig m h =
     (case ensurePlugin m h of
        (Panic, h1) \<Rightarrow> (Panic, h1)
      | (Return m1, h1) \<Rightarrow>
          (case Option.bind (plugin m1) (deref h1) of
             None \<Rightarrow> (Panic, h1)
           | Some ob \<Rightarrow>
               (case hasConfigStruct (dynType ob) of
                  Some cs \<Rightarrow> (Return (m1\<lparr>configStruct := cs\<rparr>), h1)
                | None \<Rightarrow> (Return (m1\<lparr>configStruct := PluginConfigMap []\<rparr>), h1))))"

subsection \<open>Decoding a section into the configuration struct\<close>

fun sameKind :: "toml \<Rightarrow> toml \<Rightarrow> bool" where
  "sameKind (TString _) (TString _) = True"
| "sameKind (TInt _) (TInt _) = True"
| "sameKind (TBool _) (TBool _) = True"
| "sameKind (TFloat _) (TFloat _) = True"
| "sameKind (TDatetime _) (TDatetime _) = True"
| "sameKind (TArray _) (TArray _) = True"
| "sameKind (TTable _) (TTable _) = True"
| "sameKind _ _ = False"

fun unifyFields ::
  "(string \<times> toml) list \<Rightarrow> (string \<times> toml) list \<Rightarrow> string + (string \<times> toml) list" where
  "unifyFields tmap [] = Inr []"
| "unifyFields tmap ((k, v) # fs) =
     (case insensitiveGet tmap k of
        None \<Rightarrow> map_sum id ((#) (k, v)) (unifyFields tmap fs)
      | Some datum \<Rightarrow>
          (if sameKind v datum then map_sum id ((#) (k, datum)) (unifyFields tmap fs)
           else Inl (typeMismatch k)))"

text \<open>
  \<open>toml.PrimitiveDecode\<close>: into the generic map every key of the section is stored; into
  a struct each field takes the datum under its key, the other keys are ignored. A
  decode that fails is taken to leave the target as it was.
\<close>

definition PrimitiveDecode :: "toml \<Rightarrow> config \<Rightarrow> string + config" where
  "PrimitiveDecode sec target =
     (case sec of
        TTable tmap \<Rightarrow>
          (case target of
             NilConfig \<Rightarrow> Inl (typeMismatch ''nil'')
           | PluginConfigMap old \<Rightarrow>
               Inr (PluginConfigMap
                      (tmap @ filter (\<lambda>kv. map_of tmap (fst kv) = None) old))
           | ConfigStruct fs \<Rightarrow> map_sum id ConfigStruct (unifyFields tmap fs))
      | _ \<Rightarrow> Inl (typeMismatch ''section''))"

definition unknownKeyText :: "string \<Rightarrow> string" where
  "unknownKeyText k =
     ''Configuration contains key ['' @ k @ ''] which doesn't exist in struct''"

definition unknownKeys ::
  "(string \<times> toml) list \<Rightarrow> string list \<Rightarrow> string list \<Rightarrow> string list" where
  "unknownKeys tmap known ignore_fields =
     filter (\<lambda>k. \<not> list_ex (\<lambda>f. keyFold f k) known
                 \<and> \<not> list_ex (\<lambda>g. keyFold g k) ignore_fields)
       (map fst tmap)"

text \<open>
  Modelled from the spec: \<open>toml.PrimitiveDecodeStrict\<close> belongs to the external TOML
  library. Strict decoding into a schema: any key present in the section that is not a
  field of the schema and not one of the keys to ignore is a fatal error naming the
  offending key (the first such key in the table's iteration order); otherwise the
  section is decoded as \<open>PrimitiveDecode\<close> does. The generic map has no schema to
  violate.
\<close>

definition PrimitiveDecodeStrict :: "toml \<Rightarrow> config \<Rightarrow> string list \<Rightarrow> string + config" where
  "PrimitiveDecodeStrict sec target ignore_fields =
     (case (sec, target) of
        (TTable tmap, ConfigStruct fs) \<Rightarrow>
          (case unknownKeys tmap (map fst fs) ignore_fields of
             k # _ \<Rightarrow> Inl (unknownKeyText k)
           | [] \<Rightarrow> PrimitiveDecode sec target)
      | _ \<Rightarrow> PrimitiveDecode sec target)"

text \<open>
  \<open>unknownOptionRegex\<close> is \<^verbatim>\<open>^Configuration contains key \[(?P<key>\S+)\]\<close>: after the
  fixed prefix, the longest run of non-space characters that a closing bracket follows.
  The result is the submatch \<open>matches[1]\<close>, or \<open>None\<close> when the text does not match.
\<close>

definition isSpace :: "char \<Rightarrow> bool" where
  "isSpace c = (c \<in> set [CHR 0x09, CHR 0x0A, CHR 0x0C, CHR 0x0D, CHR 0x20])"

definition unknownOptionRegex :: "string \<Rightarrow> string option" where
  "unknownOptionRegex s =
     (let pre = ''Configuration contains key ['' in
      if prefix pre s then
        (let run = takeWhile (\<lambda>c. \<not> isSpace c) (drop (length pre) s);
             upto = rev (dropWhile (\<lambda>c. c \<noteq> CHR '']'') (rev run))
         in if 2 \<le> length upto then Some (butlast upto) else None)
      else None)"

text \<open>
  The keys that the TOML parser delivers: a key is not empty and ends at the first
  white space.
\<close>

definition tomlKey :: "string \<Rightarrow> bool" where
  "tomlKey k = (k \<noteq> [] \<and> \<not> list_ex isSpace k)"

subsection \<open>PrepConfig and Make\<close>

text \<open>
  The keys of the common structs, as the reflection loop of \<open>PrepConfig\<close> collects them:
  the \<open>toml\<close> tag of each field, or its Go name.
\<close>

definition hekaParams :: "pluginMaker \<Rightarrow> string list" where
  "hekaParams m =
     [''type''] @
     (case commonTypedConfig m of
        NoCommonTyped \<Rightarrow> []
      | CommonInput _ \<Rightarrow>
          [''ticker_interval'', ''Decoder'', ''synchronous_decode'',
           ''send_decode_failures'', ''Retries'']
      | CommonFO _ \<Rightarrow>
          [''ticker_interval'', ''message_matcher'', ''message_signer'', ''can_exit'',
           ''Retries'', ''Encoder'', ''use_framing''])"

definition PrepConfig ::
  "pluginMaker \<Rightarrow> heap \<Rightarrow> string option outcome \<times> pluginMaker \<times> heap" where
  "PrepConfig m h =
     (if configPrepped m then (Return None, m, h)
      else
        (case (if configStruct m = NilConfig then makeConfig m h else ensurePlugin m h) of
           (Panic, h1) \<Rightarrow> (Panic, m, h1)
         | (Return m1, h1) \<Rightarrow>
             (case Option.bind (plugin m1) (deref h1) of
                None \<Rightarrow> (Panic, m1, h1)
              | Some ob \<Rightarrow>
                  (case hasConfigStruct (dynType ob) of
                     None \<Rightarrow>
                       (case PrimitiveDecode (tomlSection m1) (configStruct m1) of
                          Inl err \<Rightarrow>
                            (Return (Some (''can't decode config for '' @ apos @ name m1
                                           @ apos @ '': '' @ err @ '' '')), m1, h1)
                        | Inr cfg \<Rightarrow>
                            (Return None,
                             m1\<lparr>configStruct := cfg, configPrepped := True\<rparr>, h1))
                   | Some _ \<Rightarrow>
                       (case PrimitiveDecodeStrict (tomlSection m1) (configStruct m1)
                               (hekaParams m1) of
                          Inl err \<Rightarrow>
                            (case unknownOptionRegex err of
                               Some key \<Rightarrow>
                                 (Return (Some (''unknown config setting for '' @ apos
                                                @ name m1 @ apos @ '': '' @ key)), m1, h1)
                             | None \<Rightarrow> (Return (Some err), m1, h1))
                        | Inr cfg \<Rightarrow>
                            (Return None,
                             m1\<lparr>configStruct := cfg, configPrepped := True\<rparr>, h1))))))"


text \<open>
  \<open>Make\<close> returns the pair (plugin, error) of the source: \<open>(Some p, None)\<close> on success,
  \<open>(None, Some err)\<close> on failure.
\<close>

definition Make ::
  "pluginMaker \<Rightarrow> heap \<Rightarrow> (addr option \<times> string option) outcome \<times> pluginMaker \<times> heap" where
  "Make m h =
     (case (if \<not> configPrepped m then PrepConfig m h else (Return None, m, h)) of
        (Panic, m1, h1) \<Rightarrow> (Panic, m1, h1)
      | (Return (Some err), m1, h1) \<Rightarrow> (Return (None, Some err), m1, h1)
      | (Return None, m1, h1) \<Rightarrow>
          (case (case plugin m1 of
                   None \<Rightarrow>
                     (case makePlugin m1 h1 of
                        (Panic, h2) \<Rightarrow> (Panic, m1, h2)
                      | (Return p, h2) \<Rightarrow> (Return p, m1, h2))
                 | Some p \<Rightarrow> (Return p, m1\<lparr>plugin := None\<rparr>, h1)) of
             (Panic, m2, h2) \<Rightarrow> (Panic, m2, h2)
           | (Return p, m2, h2) \<Rightarrow>
               (case deref h2 p of
                  None \<Rightarrow> (Panic, m2, h2)
                | Some ob \<Rightarrow>
                    (let h3 = h2[p := ob\<lparr>objInit := Some (configStruct m2)\<rparr>] in
                     case Init (dynType ob) (configStruct m2) of
                       Some err \<Rightarrow>
                         (Return (None, Some (''Initialization failed for '' @ apos
                                              @ name m2 @ apos @ '': '' @ err)), m2, h3)
                     | None \<Rightarrow> (Return (Some p, None), m2, h3)))))"

section \<open>The pipeline configuration object\<close>

text \<open>
  Go's \<open>uint\<close> is a machine word (64 bits on the usual targets): \<open>msgLoopCount++\<close> wraps.
\<close>

type_synonym uint = "64 word"

text \<open>
  \<open>GlobalConfigStruct\<close> is declared outside this file; these are the fields and the one
  method (\<open>IsShuttingDown\<close>, which reads the shutdown flag) that the code here uses.
\<close>

record GlobalConfigStruct =
  MaxMsgLoops :: uint
  PoolSize :: nat
  PluginChanSize :: nat
  g_Hostname :: string
  shuttingDown :: bool

definition IsShuttingDown :: "GlobalConfigStruct \<Rightarrow> bool" where
  "IsShuttingDown g = shuttingDown g"

record Message =
  Timestamp :: int
  Uuid :: string
  Hostname :: string
  Pid :: int
  Payload :: string

record PipelinePack =
  Message :: Message
  RefCount :: int
  MsgLoopCount :: uint

text \<open>
  A runner as far as this file reads it: its name, the plugin instance it wraps and its
  match runner (sent to the router when a filter or output is added or removed).
\<close>

record runner =
  Name :: string
  Plugin :: addr
  MatchRunner :: string

text \<open>A channel is the queue of what was sent and not yet received.\<close>

record messageRouter =
  AddFilterMatcher :: "string list"
  RemoveFilterMatcher :: "string list"
  RemoveOutputMatcher :: "string list"

text \<open>
  A line written through the standard logger, kept with the call that wrote it:
  \<open>Pre-loading: [name]\<close>, \<open>Loading: [name]\<close>, or a message of \<open>log\<close>.
\<close>

datatype logLine = PreLoading string | Loading string | Logged string

text \<open>
  \<open>makers\<close> holds the five inner maps that \<open>NewPipelineConfig\<close> creates, by category.
  The maps hold pointers to makers in the source; here they hold the maker, and a call
  that changes a maker through the pointer stores the changed maker back. \<open>logOutput\<close>
  collects the lines written through the standard logger.
\<close>

record PipelineConfig =
  Globals :: GlobalConfigStruct
  makers :: "string \<Rightarrow> (string \<rightharpoonup> pluginMaker)"
  InputRunners :: "string \<rightharpoonup> runner"
  FilterRunners :: "string \<rightharpoonup> runner"
  OutputRunners :: "string \<rightharpoonup> runner"
  router :: messageRouter
  inputRecycleChan :: "PipelinePack list"
  injectRecycleChan :: "PipelinePack list"
  LogMsgs :: "string list"
  allDecoders :: "runner list"
  allEncoders :: "string \<rightharpoonup> addr"
  hostname :: string
  pid :: int
  logOutput :: "logLine list"

text \<open>
  \<open>PipelinePack\<close>: \<open>Nil\<close> is the nil pointer; receiving from the empty recycle channel
  blocks the caller. The clock and the random UUID are inputs.
\<close>

datatype packResult = Nil | Pack PipelinePack | Blocked

definition PipelinePack ::
  "int \<Rightarrow> string \<Rightarrow> uint \<Rightarrow> PipelineConfig \<Rightarrow> packResult \<times> PipelineConfig" where
  "PipelinePack now newRandom msgLoopCount self =
     (let msgLoopCount = msgLoopCount + 1 in
      if msgLoopCount > MaxMsgLoops (Globals self) then (Nil, self)
      else
        (case injectRecycleChan self of
           [] \<Rightarrow> (Blocked, self)
         | pack # rest \<Rightarrow>
             (Pack (pack\<lparr>Message := (Message pack)\<lparr>Timestamp := now, Uuid := newRandom,
                                                   Hostname := hostname self,
                                                   Pid := pid self\<rparr>,
                         RefCount := 1,
                         MsgLoopCount := msgLoopCount\<rparr>),
              self\<lparr>injectRecycleChan := rest\<rparr>)))"

definition log :: "string \<Rightarrow> PipelineConfig \<Rightarrow> PipelineConfig" where
  "log msg self =
     self\<lparr>LogMsgs := LogMsgs self @ [msg], logOutput := logOutput self @ [Logged msg]\<rparr>"

text \<open>
  \<open>Encoder\<close> returns the pair (encoder, ok). The assertion \<open>plugin.(Encoder)\<close> has no
  second result: on a nil plugin, or on one that is no \<open>Encoder\<close>, it panics.
\<close>

definition Encoder ::
  "string \<Rightarrow> string \<Rightarrow> PipelineConfig \<Rightarrow> heap
     \<Rightarrow> (addr option \<times> bool) outcome \<times> PipelineConfig \<times> heap" where
  "Encoder baseName fullName self h =
     (case makers self ''Encoder'' baseName of
        None \<Rightarrow> (Return (None, False), self, h)
      | Some maker \<Rightarrow>
          (case Make maker h of
             (Panic, maker1, h1) \<Rightarrow>
               (Panic,
                self\<lparr>makers := (makers self)
                        (''Encoder'' := (makers self ''Encoder'')(baseName \<mapsto> maker1))\<rparr>,
                h1)
           | (Return (plug, err), maker1, h1) \<Rightarrow>
               (let self1 = self\<lparr>makers := (makers self)
                               (''Encoder'' := (makers self ''Encoder'')(baseName \<mapsto> maker1))\<rparr>;
                    self2 = (case err of
                               Some e \<Rightarrow>
                                 log (''Error creating encoder '' @ apos @ fullName @ apos
                                      @ '': '' @ e) self1
                             | None \<Rightarrow> self1)
                in case Option.bind plug (\<lambda>p. map_option (Pair p) (deref h1 p)) of
                     None \<Rightarrow> (Panic, self2, h1)
                   | Some (p, ob) \<Rightarrow>
                       (if \<not> isEncoder (dynType ob) then (Panic, self2, h1)
                        else
                          (let h2 = (if wantsName (dynType ob)
                                     then h1[p := ob\<lparr>objName := Some fullName\<rparr>] else h1)
                           in (Return (Some p, True),
                               self2\<lparr>allEncoders := (allEncoders self2)(fullName \<mapsto> p)\<rparr>,
                               h2))))))"

definition RemoveFilterRunner :: "string \<Rightarrow> PipelineConfig \<Rightarrow> bool \<times> PipelineConfig" where
  "RemoveFilterRunner nm self =
     (if IsShuttingDown (Globals self) then (False, self)
      else
        (case FilterRunners self nm of
           Some fRunner \<Rightarrow>
             (True,
              self\<lparr>router := (router self)
                      \<lparr>RemoveFilterMatcher :=
                         RemoveFilterMatcher (router self) @ [MatchRunner fRunner]\<rparr>,
                   FilterRunners := (FilterRunners self)(nm := None)\<rparr>)
         | None \<Rightarrow> (False, self)))"

section \<open>The environment preprocessor of the configuration text\<close>

text \<open>
  Errors are Go error values, known by their message. The reader is the whole text that
  is still to be read (no read fails but at the end of the text): \<open>ReadBytes\<close> returns
  the bytes up to and including the delimiter, or everything that is left, with
  \<open>io.EOF\<close>, when there is no delimiter; \<open>Peek\<close> returns the next \<open>n\<close> bytes without
  consuming them, or fewer, with \<open>io.EOF\<close>.
\<close>

type_synonym error = string

definition ErrMissingCloseDelim :: error where
  "ErrMissingCloseDelim = ''Missing closing delimiter''"

definition ErrInvalidChars :: error where
  "ErrInvalidChars = ''Invalid characters in environmental variable''"

definition EOF :: error where
  "EOF = ''EOF''"

definition invalidEnvChars :: string where
  "invalidEnvChars = [CHR 0x0A, CHR 0x0D, CHR 0x09, CHR 0x20]"

definition invalidEnvPrefix :: string where
  "invalidEnvPrefix = ''%ENV[''"

definition ReadBytes :: "char \<Rightarrow> string \<Rightarrow> string \<times> error option \<times> string" where
  "ReadBytes delim buf =
     (case dropWhile (\<lambda>c. c \<noteq> delim) buf of
        [] \<Rightarrow> (buf, Some EOF, [])
      | d # rest \<Rightarrow> (takeWhile (\<lambda>c. c \<noteq> delim) buf @ [d], None, rest))"

definition Peek :: "nat \<Rightarrow> string \<Rightarrow> string \<times> error option" where
  "Peek n buf = (take n buf, if length buf < n then Some EOF else None)"

lemma ReadBytes_rest_shorter:
  assumes "ReadBytes delim buf = (chunk, None, rest)"
  shows "length rest < length buf"
proof -
  from assms obtain d where "dropWhile (\<lambda>c. c \<noteq> delim) buf = d # rest"
    by (auto simp: ReadBytes_def split: list.splits)
  then have "Suc (length rest) = length (dropWhile (\<lambda>c. c \<noteq> delim) buf)"
    by simp
  also have "\<dots> \<le> length buf"
    by (rule length_dropWhile_le)
  finally show ?thesis by simp
qed

text \<open>\<open>bytes.IndexAny\<close> and \<open>bytes.Index\<close>: the first position, or \<open>-1\<close>.\<close>

definition IndexAny :: "string \<Rightarrow> string \<Rightarrow> int" where
  "IndexAny s chars =
     (case find (\<lambda>i. s ! i \<in> set chars) [0..<length s] of
        None \<Rightarrow> - 1
      | Some i \<Rightarrow> int i)"

definition Index :: "string \<Rightarrow> string \<Rightarrow> int" where
  "Index s sep =
     (case find (\<lambda>i. prefix sep (drop i s)) [0..<Suc (length s)] of
        None \<Rightarrow> - 1
      | Some i \<Rightarrow> int i)"

text \<open>\<open>os.Getenv\<close>: the value of the variable, empty when it is not set.\<close>

definition Getenv :: "(string \<rightharpoonup> string) \<Rightarrow> string \<Rightarrow> string" where
  "Getenv env varName = (case env varName of None \<Rightarrow> [] | Some varVal \<Rightarrow> varVal)"

text \<open>
  The loop of \<open>EnvSub\<close>, on the output written so far and the text still to be read.
  Every round reads at least the \<open>%\<close> it stops at.
\<close>

function EnvSub_loop :: "(string \<rightharpoonup> string) \<Rightarrow> string \<Rightarrow> string \<Rightarrow> error + string" where
  "EnvSub_loop env bufOut bufIn =
     (case ReadBytes CHR ''%'' bufIn of
        (chunk, Some err, _) \<Rightarrow> Inr (bufOut @ chunk)
      | (chunk, None, in1) \<Rightarrow>
          (let bufOut1 = bufOut @ butlast chunk in
           case Peek 4 in1 of
             (tmp, Some err) \<Rightarrow> Inr (bufOut1 @ ''%'' @ tmp)
           | (tmp, None) \<Rightarrow>
               (if tmp = ''ENV[''
                then
                  (case ReadBytes CHR ''['' in1 of
                     (_, Some err, _) \<Rightarrow> Inl err
                   | (_, None, in2) \<Rightarrow>
                       (case ReadBytes CHR '']'' in2 of
                          (chunk2, Some err, _) \<Rightarrow> Inl ErrMissingCloseDelim
                        | (chunk2, None, in3) \<Rightarrow>
                            (if IndexAny chunk2 invalidEnvChars \<noteq> - 1
                                \<or> Index chunk2 invalidEnvPrefix \<noteq> - 1
                             then Inl ErrInvalidChars
                             else EnvSub_loop env
                                    (bufOut1 @ Getenv env (butlast chunk2)) in3)))
                else EnvSub_loop env (bufOut1 @ ''%'') in1)))"
  by pat_completeness auto
termination
  apply (relation "measure (\<lambda>(env, bufOut, bufIn). length bufIn)")
    apply simp
   apply (clarsimp, drule sym, drule sym, drule sym,
          drule ReadBytes_rest_shorter, drule ReadBytes_rest_shorter,
          drule ReadBytes_rest_shorter, simp)
  apply (clarsimp, drule sym, drule ReadBytes_rest_shorter, simp)
  done

definition EnvSub :: "(string \<rightharpoonup> string) \<Rightarrow> string \<Rightarrow> error + string" where
  "EnvSub env r = EnvSub_loop env [] r"
subsection \<open>The text as tokens\<close>

text \<open>
  A configuration text read as the scan reads it: stretches of literal text, and
  references \<open>%ENV[X]\<close> to a variable \<open>X\<close>. A literal holds no \<open>%ENV[\<close>, and the text
  after a literal is at its end or goes on with a reference (two literals side by side
  are one literal). The name of a variable ends at the first \<open>]\<close>.
\<close>

datatype token = Lit string | Var string

fun render :: "token list \<Rightarrow> string" where
  "render [] = []"
| "render (Lit s # ts) = s @ render ts"
| "render (Var x # ts) = ''%ENV['' @ x @ '']'' @ render ts"

fun expand :: "(string \<rightharpoonup> string) \<Rightarrow> token list \<Rightarrow> string" where
  "expand env [] = []"
| "expand env (Lit s # ts) = s @ expand env ts"
| "expand env (Var x # ts) = Getenv env x @ expand env ts"

definition hasInvalidChar :: "string \<Rightarrow> bool" where
  "hasInvalidChar x = list_ex (\<lambda>c. c \<in> set invalidEnvChars) x"

definition validName :: "string \<Rightarrow> bool" where
  "validName x =
     (CHR '']'' \<notin> set x \<and> \<not> hasInvalidChar x \<and> \<not> sublist invalidEnvPrefix x)"

fun isLit :: "token \<Rightarrow> bool" where
  "isLit (Lit s) = True"
| "isLit (Var x) = False"

fun wellFormed :: "token list \<Rightarrow> bool" where
  "wellFormed [] = True"
| "wellFormed (Var x # ts) = (validName x \<and> wellFormed ts)"
| "wellFormed (Lit s # ts) =
     (\<not> sublist invalidEnvPrefix s \<and> (case ts of [] \<Rightarrow> True | t # _ \<Rightarrow> \<not> isLit t)
      \<and> wellFormed ts)"

section \<open>Ordering the multi-decoders by their dependencies\<close>

text \<open>
  Modelled from the spec: \<open>multiDecoderNode\<close>, \<open>newMultiDecoderNode\<close> and
  \<open>orderDependencies\<close> belong to another file of the package. A node is the name of a
  multi-decoder with the names of its subordinates, in the order of the declaration.
\<close>

record multiDecoderNode =
  nodeName :: string
  subs :: "string list"








section \<open>Loading a configuration file\<close>






text \<open>The local variables of \<open>LoadFromConfigFile\<close>.\<close>

record loading =
  errcnt :: uint
  protobufDRegistered :: bool
  protobufERegistered :: bool
  makersByCategory :: "string \<Rightarrow> pluginMaker list"

definition appendMaker :: "string \<Rightarrow> pluginMaker \<Rightarrow> loading \<Rightarrow> loading" where
  "appendMaker cat maker ls =
     ls\<lparr>makersByCategory := (makersByCategory ls)(cat := makersByCategory ls cat @ [maker])\<rparr>"




fun lookupAll :: "(string \<rightharpoonup> pluginMaker) \<Rightarrow> multiDecoderNode list \<Rightarrow> pluginMaker list option" where
  "lookupAll multiMakers [] = Some []"
| "lookupAll multiMakers (d # ds) =
     (case multiMakers (nodeName d) of
        None \<Rightarrow> None
      | Some maker \<Rightarrow> map_option ((#) maker) (lookupAll multiMakers ds))"


text \<open>The loading loop over the makers of one category.\<close>

definition register :: "string \<Rightarrow> pluginMaker \<Rightarrow> PipelineConfig \<Rightarrow> PipelineConfig" where
  "register cat maker self =
     self\<lparr>makers := (makers self)(cat := (makers self cat)(name maker \<mapsto> maker))\<rparr>"

definition addRunner :: "string \<Rightarrow> string \<Rightarrow> runner \<Rightarrow> PipelineConfig \<Rightarrow> PipelineConfig" where
  "addRunner cat nm r self =
     (if cat = ''Input'' then self\<lparr>InputRunners := (InputRunners self)(nm \<mapsto> r)\<rparr>
      else if cat = ''Filter'' then self\<lparr>FilterRunners := (FilterRunners self)(nm \<mapsto> r)\<rparr>
      else if cat = ''Output'' then self\<lparr>OutputRunners := (OutputRunners self)(nm \<mapsto> r)\<rparr>
      else self)"





text \<open>The names of the \<open>Loading\<close> lines of a log, in their order.\<close>

fun loadingNames :: "logLine list \<Rightarrow> string list" where
  "loadingNames [] = []"
| "loadingNames (Loading n # ls) = n # loadingNames ls"
| "loadingNames (l # ls) = loadingNames ls"








section \<open>Concrete plugins, makers and pipelines\<close>

text \<open>
  A plugin type without a configuration struct of its own, one with a struct of two
  fields, and an encoder whose \<open>Init\<close> rejects every configuration.
\<close>

definition plainType :: pluginType where
  "plainType =
     \<lparr>isPlugin = True, wantsPipelineConfig = True, wantsName = True,
      hasConfigStruct = None, Init = (\<lambda>c. None), isEncoder = True\<rparr>"

definition structType :: pluginType where
  "structType =
     \<lparr>isPlugin = True, wantsPipelineConfig = False, wantsName = False,
      hasConfigStruct = Some (ConfigStruct [(''address'', TString '':5565''),
                                            (''keep_alive'', TBool False)]),
      Init = (\<lambda>c. None), isEncoder = False\<rparr>"

definition failingType :: pluginType where
  "failingType =
     \<lparr>isPlugin = True, wantsPipelineConfig = False, wantsName = False,
      hasConfigStruct = None, Init = (\<lambda>c. Some ''bad configuration''), isEncoder = True\<rparr>"

definition registry :: "string \<rightharpoonup> pluginType" where
  "registry =
     [''TcpInput'' \<mapsto> structType, ''CounterFilter'' \<mapsto> plainType,
      ''LogOutput'' \<mapsto> structType, ''ProtobufDecoder'' \<mapsto> plainType,
      ''ProtobufEncoder'' \<mapsto> plainType, ''MultiDecoder'' \<mapsto> structType,
      ''PayloadEncoder'' \<mapsto> failingType]"

definition makerOf :: "string \<Rightarrow> string \<Rightarrow> pluginType \<Rightarrow> (string \<times> toml) list \<Rightarrow> pluginMaker" where
  "makerOf nm cat t tmap =
     \<lparr>name = nm, category = cat, tomlSection = TTable tmap, commonConfig = \<lparr>Typ = nm\<rparr>,
      commonTypedConfig = NoCommonTyped, constructor = t, configStruct = NilConfig,
      configPrepped = False, plugin = None\<rparr>"

definition emptyPack :: PipelinePack where
  "emptyPack =
     \<lparr>Message = \<lparr>Timestamp = 0, Uuid = [], Hostname = [], Pid = 0, Payload = ''old''\<rparr>,
      RefCount = 0, MsgLoopCount = 7\<rparr>"

definition idlePipeline :: PipelineConfig where
  "idlePipeline =
     \<lparr>Globals = \<lparr>MaxMsgLoops = 4, PoolSize = 100, PluginChanSize = 30,
                 g_Hostname = ''host'', shuttingDown = False\<rparr>,
      makers = (\<lambda>c. Map.empty)
                 (''Encoder'' := [''PayloadEncoder'' \<mapsto>
                                   makerOf ''PayloadEncoder'' ''Encoder'' failingType []]),
      InputRunners = Map.empty,
      FilterRunners = [''counter'' \<mapsto> \<lparr>Name = ''counter'', Plugin = 0, MatchRunner = ''TRUE''\<rparr>],
      OutputRunners = Map.empty,
      router = \<lparr>AddFilterMatcher = [], RemoveFilterMatcher = [], RemoveOutputMatcher = []\<rparr>,
      inputRecycleChan = [],
      injectRecycleChan = [emptyPack],
      LogMsgs = [],
      allDecoders = [],
      allEncoders = Map.empty,
      hostname = ''host'',
      pid = 4711,
      logOutput = []\<rparr>"

definition stoppingPipeline :: PipelineConfig where
  "stoppingPipeline = idlePipeline\<lparr>Globals := (Globals idlePipeline)\<lparr>shuttingDown := True\<rparr>\<rparr>"







chapter \<open>Properties\<close>

section \<open>The envelope pool\<close>

text \<open>
  Below the largest loop count the call is as documented: nil exactly when the
  incremented count exceeds the maximum, and otherwise (once a pack can be received) the
  pack carries the incremented count and the new stamp.
\<close>

lemma PipelinePack_below_max:
  assumes "n \<noteq> - 1"
  shows "(fst (PipelinePack now rnd n self) = Nil)
           = (unat n + 1 > unat (MaxMsgLoops (Globals self)))"
proof -
  have "unat (n + 1) = unat n + 1"
    using assms unatSuc [of n] by (simp add: eq_neg_iff_add_eq_0 add.commute)
  then show ?thesis
    by (simp add: PipelinePack_def Let_def word_less_nat_alt split: list.splits)
qed

lemma PipelinePack_stamps:
  assumes "PipelinePack now rnd n self = (Pack p, self')"
  shows "MsgLoopCount p = n + 1 \<and> RefCount p = 1 \<and> Timestamp (Message p) = now
           \<and> Uuid (Message p) = rnd \<and> Hostname (Message p) = hostname self
           \<and> Pid (Message p) = pid self"
  using assms
  by (auto simp: PipelinePack_def Let_def split: if_splits list.splits)

text \<open>
  C2 (the loop count is a machine word): at the largest \<open>uint\<close> the increment wraps to
  zero, the comparison with the maximum of 4 fails, and instead of nil the call returns a
  pack whose loop count is 0.
\<close>

theorem PipelinePack_wraps_at_max_uint:
  "PipelinePack 1400000000 ''uuid'' 18446744073709551615 idlePipeline =
     (Pack \<lparr>Message = \<lparr>Timestamp = 1400000000, Uuid = ''uuid'', Hostname = ''host'',
                        Pid = 4711, Payload = ''old''\<rparr>,
            RefCount = 1, MsgLoopCount = 0\<rparr>,
      idlePipeline\<lparr>injectRecycleChan := []\<rparr>)
   \<and> unat (18446744073709551615 :: uint) + 1 > unat (MaxMsgLoops (Globals idlePipeline))"
  by (simp add: PipelinePack_def idlePipeline_def emptyPack_def)

section \<open>Removing a filter while shutting down\<close>

text \<open>
  C6: while the globals report the shutdown, \<open>RemoveFilterRunner\<close> returns false and
  the whole object, the registered filter runners with it, is as before.
\<close>

theorem RemoveFilterRunner_refused_in_shutdown:
  "IsShuttingDown (Globals self) \<Longrightarrow>
     RemoveFilterRunner nm self = (False, self)
     \<and> FilterRunners (snd (RemoveFilterRunner nm self)) = FilterRunners self"
  by (simp add: RemoveFilterRunner_def)

theorem RemoveFilterRunner_refused_in_shutdown_witness:
  "IsShuttingDown (Globals stoppingPipeline)
   \<and> RemoveFilterRunner ''counter'' stoppingPipeline = (False, stoppingPipeline)
   \<and> FilterRunners (snd (RemoveFilterRunner ''counter'' stoppingPipeline)) ''counter''
       = Some \<lparr>Name = ''counter'', Plugin = 0, MatchRunner = ''TRUE''\<rparr>"
proof -
  have sd: "IsShuttingDown (Globals stoppingPipeline)"
    by (simp add: IsShuttingDown_def stoppingPipeline_def idlePipeline_def)
  have "FilterRunners stoppingPipeline ''counter''
          = Some \<lparr>Name = ''counter'', Plugin = 0, MatchRunner = ''TRUE''\<rparr>"
    by (simp add: stoppingPipeline_def idlePipeline_def)
  with sd RemoveFilterRunner_refused_in_shutdown [OF sd, of "''counter''"]
  show ?thesis by simp
qed

text \<open>Outside the shutdown a registered filter is removed and its matcher sent off.\<close>

lemma RemoveFilterRunner_running:
  "RemoveFilterRunner ''counter'' idlePipeline =
     (True, idlePipeline\<lparr>router := \<lparr>AddFilterMatcher = [], RemoveFilterMatcher = [''TRUE''],
                                     RemoveOutputMatcher = []\<rparr>,
                         FilterRunners := Map.empty\<rparr>)"
  by (simp add: RemoveFilterRunner_def IsShuttingDown_def idlePipeline_def)

section \<open>The default retry options\<close>

text \<open>
  C9: \<open>getDefaultRetryOptions\<close> sets the maximal delay, the delay and the number of
  retries; the maximal jitter is left at the zero value of its type, the empty text, and
  not at the 500ms that the comment of the field in \<open>RetryOptions\<close> gives. An input
  section that says nothing about retries carries these options in its common config.
\<close>

theorem getDefaultRetryOptions_MaxJitter_empty:
  "getDefaultRetryOptions =
     \<lparr>MaxDelay = ''30s'', Delay = ''250ms'', MaxJitter = [], MaxRetries = - 1\<rparr>
   \<and> MaxJitter getDefaultRetryOptions \<noteq> ''500ms''
   \<and> map_sum id commonTypedConfig (NewPluginMaker registry ''TcpInput'' (TTable [])) =
       Inr (CommonInput \<lparr>in_Ticker = 0, in_Decoder = [], SyncDecode = None,
                         SendDecodeFailures = None,
                         in_Retries = \<lparr>MaxDelay = ''30s'', Delay = ''250ms'',
                                       MaxJitter = [], MaxRetries = - 1\<rparr>\<rparr>)"
  by (simp add: getDefaultRetryOptions_def NewPluginMaker_def decodeCommonConfig_def Let_def
      unifyString_def insensitiveGet_def registry_def getPluginCategory_def
      suffix_to_prefix decodeCommonInput_def unifyUint_def unifyBoolPtr_def
      unifyRetryOptions_def)

section \<open>Preparing the configuration once\<close>

lemma PrepConfig_success_prepped:
  "PrepConfig m h = (Return None, m1, h1) \<Longrightarrow> configPrepped m1"
  by (auto simp: PrepConfig_def split: if_splits prod.splits outcome.splits option.splits
      sum.splits)

text \<open>
  C5: once \<open>configPrepped\<close> is set, \<open>PrepConfig\<close> returns the nil error and changes
  neither the maker (its decoded config struct included) nor the store; and every
  successful \<open>PrepConfig\<close> sets \<open>configPrepped\<close>, so that any later call is of this kind.
\<close>

theorem PrepConfig_idempotent:
  "(configPrepped m \<longrightarrow>
      PrepConfig m h = (Return None, m, h)
      \<and> configStruct (fst (snd (PrepConfig m h))) = configStruct m)
   \<and> (PrepConfig m h = (Return None, m1, h1) \<longrightarrow>
        configPrepped m1 \<and> PrepConfig m1 h' = (Return None, m1, h'))"
proof (intro conjI impI)
  assume "configPrepped m"
  then show "PrepConfig m h = (Return None, m, h)"
    by (simp add: PrepConfig_def)
  then show "configStruct (fst (snd (PrepConfig m h))) = configStruct m"
    by simp
next
  assume ok: "PrepConfig m h = (Return None, m1, h1)"
  then show p: "configPrepped m1"
    by (rule PrepConfig_success_prepped)
  then show "PrepConfig m1 h' = (Return None, m1, h')"
    by (simp add: PrepConfig_def)
qed

theorem PrepConfig_idempotent_witness:
  "configPrepped ((makerOf ''CounterFilter'' ''Filter'' plainType [])\<lparr>configPrepped := True\<rparr>)
   \<and> PrepConfig ((makerOf ''CounterFilter'' ''Filter'' plainType [])\<lparr>configPrepped := True\<rparr>) []
       = (Return None, (makerOf ''CounterFilter'' ''Filter'' plainType [])\<lparr>configPrepped := True\<rparr>, [])
   \<and> PrepConfig (makerOf ''CounterFilter'' ''Filter'' plainType [(''limit'', TInt 3)]) []
       = (Return None,
          (makerOf ''CounterFilter'' ''Filter'' plainType [(''limit'', TInt 3)])
            \<lparr>configStruct := PluginConfigMap [(''limit'', TInt 3)], configPrepped := True,
             plugin := Some 0\<rparr>,
          [\<lparr>dynType = plainType, objPConfig = True, objName = Some ''CounterFilter'',
            objInit = None\<rparr>])
   \<and> PrepConfig ((makerOf ''CounterFilter'' ''Filter'' plainType [(''limit'', TInt 3)])
                   \<lparr>configStruct := PluginConfigMap [(''limit'', TInt 3)],
                    configPrepped := True, plugin := Some 0\<rparr>) []
       = (Return None,
          (makerOf ''CounterFilter'' ''Filter'' plainType [(''limit'', TInt 3)])
            \<lparr>configStruct := PluginConfigMap [(''limit'', TInt 3)], configPrepped := True,
             plugin := Some 0\<rparr>, [])"
proof -
  let ?p = "(makerOf ''CounterFilter'' ''Filter'' plainType [])\<lparr>configPrepped := True\<rparr>"
  let ?m = "makerOf ''CounterFilter'' ''Filter'' plainType [(''limit'', TInt 3)]"
  let ?m1 = "?m\<lparr>configStruct := PluginConfigMap [(''limit'', TInt 3)], configPrepped := True,
           plugin := Some 0\<rparr>"
  let ?h1 = "[\<lparr>dynType = plainType, objPConfig = True, objName = Some ''CounterFilter'',
         objInit = None\<rparr>]"
  have run: "PrepConfig ?m [] = (Return None, ?m1, ?h1)"
    by (simp add: PrepConfig_def makerOf_def makeConfig_def ensurePlugin_def makePlugin_def
        plainType_def deref_def PrimitiveDecode_def Let_def)
  have pre: "configPrepped ?p"
    by simp
  have a: "PrepConfig ?p [] = (Return None, ?p, [])"
    using PrepConfig_idempotent [of ?p "[]"] pre by blast
  have b: "PrepConfig ?m1 [] = (Return None, ?m1, [])"
    using PrepConfig_idempotent [of ?m "[]" ?m1 ?h1 "[]"] run by blast
  show ?thesis
    using pre a run b by blast
qed

section \<open>Fresh instances from Make\<close>












section \<open>Looking an encoder up\<close>

lemma Make_error_nil_plugin:
  assumes "Make m h = (Return (plug, Some err), m1, h1)"
  shows "plug = None"
proof -
  obtain r m0 h0 where A:
    "(if \<not> configPrepped m then PrepConfig m h else (Return None, m, h)) = (r, m0, h0)"
    by (metis prod_cases3)
  show ?thesis
    using assms unfolding Make_def A
    by (auto simp: Let_def split: outcome.splits option.splits prod.splits)
qed

text \<open>
  C10: \<open>Encoder\<close> returns \<open>ok == false\<close> exactly when no maker is registered under the
  base name. Where the maker is there and its \<open>Make\<close> fails, the error goes to the
  message log and nothing else reacts to it: the nil plugin is asserted to be an
  \<open>Encoder\<close>, at which the call panics, so no \<open>ok == false\<close> is returned.
\<close>

theorem Encoder_not_ok_only_without_maker:
  "((\<exists>enc. fst (Encoder baseName fullName self h) = Return (enc, False))
      = (makers self ''Encoder'' baseName = None))
   \<and> (makers self ''Encoder'' baseName = Some maker
        \<and> Make maker h = (Return (plug, Some err), maker1, h1) \<longrightarrow>
      Encoder baseName fullName self h =
        (Panic,
         log (''Error creating encoder '' @ apos @ fullName @ apos @ '': '' @ err)
           (self\<lparr>makers := (makers self)
                    (''Encoder'' := (makers self ''Encoder'')(baseName \<mapsto> maker1))\<rparr>),
         h1))"
proof (intro conjI impI)
  show "(\<exists>enc. fst (Encoder baseName fullName self h) = Return (enc, False))
          = (makers self ''Encoder'' baseName = None)"
  proof (cases "makers self ''Encoder'' baseName")
    case None
    then show ?thesis by (simp add: Encoder_def)
  next
    case (Some mk)
    obtain r mk1 hh where M: "Make mk h = (r, mk1, hh)" by (metis prod_cases3)
    show ?thesis
      using Some M
      by (cases r) (auto simp: Encoder_def Let_def split: option.splits if_splits)
  qed
next
  assume a: "makers self ''Encoder'' baseName = Some maker
               \<and> Make maker h = (Return (plug, Some err), maker1, h1)"
  then have "plug = None"
    using Make_error_nil_plugin by blast
  with a show "Encoder baseName fullName self h =
        (Panic,
         log (''Error creating encoder '' @ apos @ fullName @ apos @ '': '' @ err)
           (self\<lparr>makers := (makers self)
                    (''Encoder'' := (makers self ''Encoder'')(baseName \<mapsto> maker1))\<rparr>),
         h1)"
    by (simp add: Encoder_def Let_def)
qed

theorem Encoder_not_ok_only_without_maker_witness:
  "makers idlePipeline ''Encoder'' ''PayloadEncoder''
     = Some (makerOf ''PayloadEncoder'' ''Encoder'' failingType [])
   \<and> fst (Make (makerOf ''PayloadEncoder'' ''Encoder'' failingType []) [])
       = Return (None, Some ''Initialization failed for 'PayloadEncoder': bad configuration'')
   \<and> fst (Encoder ''PayloadEncoder'' ''out-PayloadEncoder'' idlePipeline []) = Panic
   \<and> LogMsgs (fst (snd (Encoder ''PayloadEncoder'' ''out-PayloadEncoder'' idlePipeline [])))
       = [''Error creating encoder 'out-PayloadEncoder': Initialization failed for 'PayloadEncoder': bad configuration'']
   \<and> makers idlePipeline ''Encoder'' ''NoEncoder'' = None
   \<and> fst (Encoder ''NoEncoder'' ''out-NoEncoder'' idlePipeline []) = Return (None, False)"
proof -
  let ?mk = "makerOf ''PayloadEncoder'' ''Encoder'' failingType []"
  let ?mk1 = "?mk\<lparr>configStruct := PluginConfigMap [], configPrepped := True\<rparr>"
  let ?h1 = "[\<lparr>dynType = failingType, objPConfig = False, objName = None,
       objInit = Some (PluginConfigMap [])\<rparr>]"
  let ?err = "''Initialization failed for 'PayloadEncoder': bad configuration''"
  have reg: "makers idlePipeline ''Encoder'' ''PayloadEncoder'' = Some ?mk"
    by (simp add: idlePipeline_def)
  have mk: "Make ?mk [] = (Return (None, Some ?err), ?mk1, ?h1)"
    by (simp add: Make_def PrepConfig_def makerOf_def makeConfig_def ensurePlugin_def
        makePlugin_def failingType_def deref_def PrimitiveDecode_def Let_def apos_def)
  have none: "makers idlePipeline ''Encoder'' ''NoEncoder'' = None"
    by (simp add: idlePipeline_def)
  have enc: "Encoder ''PayloadEncoder'' ''out-PayloadEncoder'' idlePipeline [] =
        (Panic,
         log (''Error creating encoder '' @ apos @ ''out-PayloadEncoder'' @ apos @ '': '' @ ?err)
           (idlePipeline\<lparr>makers := (makers idlePipeline)
                    (''Encoder'' := (makers idlePipeline ''Encoder'')(''PayloadEncoder'' \<mapsto> ?mk1))\<rparr>),
         ?h1)"
    using Encoder_not_ok_only_without_maker
            [of "''PayloadEncoder''" "''out-PayloadEncoder''" idlePipeline "[]" ?mk None ?err ?mk1 ?h1]
          reg mk by blast
  have lg: "LogMsgs (fst (snd (Encoder ''PayloadEncoder'' ''out-PayloadEncoder'' idlePipeline [])))
       = [''Error creating encoder 'out-PayloadEncoder': Initialization failed for 'PayloadEncoder': bad configuration'']"
    unfolding enc by (simp add: log_def apos_def idlePipeline_def)
  have no: "fst (Encoder ''NoEncoder'' ''out-NoEncoder'' idlePipeline []) = Return (None, False)"
    using none by (simp add: Encoder_def)
  show ?thesis
    using reg mk enc lg none no by simp
qed

section \<open>Environment variables in the configuration text\<close>

declare EnvSub_loop.simps [simp del]

lemma ReadBytes_absent:
  assumes "delim \<notin> set buf"
  shows "ReadBytes delim buf = (buf, Some EOF, [])"
proof -
  have d: "dropWhile (\<lambda>c. c \<noteq> delim) buf = []"
    using assms by auto
  show ?thesis unfolding ReadBytes_def d by simp
qed

lemma ReadBytes_found:
  assumes "delim \<notin> set a"
  shows "ReadBytes delim (a @ delim # rest) = (a @ [delim], None, rest)"
proof -
  have d: "dropWhile (\<lambda>c. c \<noteq> delim) (a @ delim # rest) = delim # rest"
    using assms by (subst dropWhile_append2) auto
  have t: "takeWhile (\<lambda>c. c \<noteq> delim) (a @ delim # rest) = a"
    using assms by (subst takeWhile_append2) auto
  show ?thesis unfolding ReadBytes_def d t by simp
qed

lemma IndexAny_iff:
  "(IndexAny s chars \<noteq> - 1) = (\<exists>c\<in>set s. c \<in> set chars)"
proof -
  have "(find (\<lambda>i. s ! i \<in> set chars) [0..<length s] = None) = (\<forall>c\<in>set s. c \<notin> set chars)"
    by (simp add: find_None_iff all_set_conv_all_nth)
  then show ?thesis
    by (auto simp: IndexAny_def split: option.splits)
qed

lemma Index_iff:
  "(Index s sep \<noteq> - 1) = sublist sep s"
proof -
  have "(find (\<lambda>i. prefix sep (drop i s)) [0..<Suc (length s)] = None) = (\<not> sublist sep s)"
  proof
    assume n: "find (\<lambda>i. prefix sep (drop i s)) [0..<Suc (length s)] = None"
    show "\<not> sublist sep s"
    proof
      assume "sublist sep s"
      then obtain ps ss where s: "s = ps @ sep @ ss" by (auto simp: sublist_def)
      then have "prefix sep (drop (length ps) s)" by simp
      moreover have "length ps \<in> set [0..<Suc (length s)]" using s by simp
      ultimately show False using n unfolding find_None_iff by blast
    qed
  next
    assume n: "\<not> sublist sep s"
    show "find (\<lambda>i. prefix sep (drop i s)) [0..<Suc (length s)] = None"
    proof (rule ccontr)
      assume "find (\<lambda>i. prefix sep (drop i s)) [0..<Suc (length s)] \<noteq> None"
      then obtain i where "prefix sep (drop i s)" by (auto simp: find_None_iff)
      then obtain ss where "drop i s = sep @ ss" by (auto simp: prefix_def)
      then have "s = take i s @ sep @ ss" by (metis append_take_drop_id)
      then show False using n by (auto simp: sublist_def)
    qed
  qed
  then show ?thesis
    by (auto simp: Index_def split: option.splits)
qed

lemma EnvSub_loop_Nil: "EnvSub_loop env out [] = Inr out"
  by (simp add: EnvSub_loop.simps ReadBytes_def)

text \<open>A reference whose name is closed: the name is checked and replaced.\<close>

lemma sublist_snoc_bracket:
  assumes "\<not> sublist invalidEnvPrefix x"
  shows "\<not> sublist invalidEnvPrefix (x @ '']'')"
proof
  assume "sublist invalidEnvPrefix (x @ '']'')"
  then obtain ps ss where e: "x @ '']'' = ps @ invalidEnvPrefix @ ss"
    by (auto simp: sublist_def)
  show False
  proof (cases ss rule: rev_cases)
    case Nil
    with e have "last (x @ '']'') = last (ps @ invalidEnvPrefix)" by simp
    then show False by (simp add: invalidEnvPrefix_def)
  next
    case (snoc ss' c)
    with e have "x = ps @ invalidEnvPrefix @ ss'"
      by (metis append_assoc butlast_snoc)
    with assms show False by (auto simp: sublist_def)
  qed
qed

lemma EnvSub_loop_reference:
  assumes "CHR '']'' \<notin> set x"
  shows "EnvSub_loop env out (''%ENV['' @ x @ '']'' @ rest) =
     (if hasInvalidChar x \<or> sublist invalidEnvPrefix x then Inl ErrInvalidChars
      else EnvSub_loop env (out @ Getenv env x) rest)"
proof -
  have r1: "ReadBytes CHR ''%'' (''%ENV['' @ x @ '']'' @ rest)
              = (''%'', None, ''ENV['' @ x @ '']'' @ rest)"
    using ReadBytes_found [of "CHR ''%''" "[]"] by simp
  have r2: "ReadBytes CHR ''['' (''ENV['' @ x @ '']'' @ rest) = (''ENV['', None, x @ '']'' @ rest)"
    using ReadBytes_found [of "CHR ''[''" "''ENV''" "x @ '']'' @ rest"] by simp
  have r3: "ReadBytes CHR '']'' (x @ '']'' @ rest) = (x @ '']'', None, rest)"
    using ReadBytes_found [OF assms, of rest] by simp
  have any: "(IndexAny (x @ '']'') invalidEnvChars \<noteq> - 1) = hasInvalidChar x"
    by (auto simp: IndexAny_iff hasInvalidChar_def list_ex_iff invalidEnvChars_def)
  have sub: "(Index (x @ '']'') invalidEnvPrefix \<noteq> - 1) = sublist invalidEnvPrefix x"
    unfolding Index_iff using sublist_snoc_bracket [of x] sublist_append by blast
  show ?thesis
    apply (subst EnvSub_loop.simps)
    apply (simp only: r1 r2 r3 prod.case option.case Let_def)
    apply (simp add: Peek_def any sub del: One_nat_def)
    done
qed


text \<open>A stretch of literal text is copied, whatever follows it.\<close>

lemma not_ENV_after_percent:
  assumes ns: "\<not> sublist invalidEnvPrefix (a @ CHR ''%'' # b)"
    and rest: "rest = [] \<or> prefix invalidEnvPrefix rest"
    and long: "\<not> length (b @ rest) < 4"
  shows "take 4 (b @ rest) \<noteq> ''ENV[''"
proof
  assume t: "take 4 (b @ rest) = ''ENV[''"
  show False
  proof (cases "length b < 4")
    case False
    then have "take 4 b = ''ENV[''" using t by simp
    then have "b = ''ENV['' @ drop 4 b" by (metis append_take_drop_id)
    then have "a @ CHR ''%'' # b = a @ invalidEnvPrefix @ drop 4 b"
      by (simp add: invalidEnvPrefix_def)
    then show False using ns unfolding sublist_def by blast
  next
    case True
    with long have "rest \<noteq> []" by auto
    with rest obtain r where r: "rest = CHR ''%'' # r"
      by (auto simp: invalidEnvPrefix_def prefix_def)
    have "(b @ rest) ! length b = CHR ''%''" by (simp add: r)
    moreover have "take 4 (b @ rest) ! length b = (b @ rest) ! length b"
      using True by (rule nth_take)
    ultimately have "''ENV['' ! length b = CHR ''%''" using t by simp
    moreover have "length b = 0 \<or> length b = 1 \<or> length b = 2 \<or> length b = 3"
      using True by arith
    ultimately show False by auto
  qed
qed

lemma EnvSub_loop_literal:
  assumes "\<not> sublist invalidEnvPrefix s"
    and "rest = [] \<or> prefix invalidEnvPrefix rest"
  shows "EnvSub_loop env out (s @ rest) = EnvSub_loop env (out @ s) rest"
  using assms(1)
proof (induction s arbitrary: out rule: length_induct)
  case (1 s)
  show ?case
  proof (cases "CHR ''%'' \<in> set s")
    case False
    show ?thesis
    proof (cases "rest = []")
      case True
      with False show ?thesis
        by (simp add: EnvSub_loop.simps [of env out s] ReadBytes_absent EnvSub_loop_Nil)
    next
      case nonempty: False
      with assms(2) obtain r where r: "rest = CHR ''%'' # r"
        by (auto simp: invalidEnvPrefix_def prefix_def)
      have l: "ReadBytes CHR ''%'' (s @ rest) = (s @ ''%'', None, r)"
        unfolding r using ReadBytes_found [OF False] by simp
      have rr: "ReadBytes CHR ''%'' rest = (''%'', None, r)"
        unfolding r using ReadBytes_found [of "CHR ''%''" "[]"] by simp
      show ?thesis
        apply (subst EnvSub_loop.simps [of env out "s @ rest"])
        apply (subst EnvSub_loop.simps [of env "out @ s" rest])
        apply (simp only: l rr prod.case option.case)
        apply simp
        done
    qed
  next
    case True
    then obtain a b where s: "s = a @ CHR ''%'' # b" and a: "CHR ''%'' \<notin> set a"
      by (meson split_list_first)
    have l: "ReadBytes CHR ''%'' (s @ rest) = (a @ ''%'', None, b @ rest)"
      unfolding s using ReadBytes_found [OF a, of "b @ rest"] by simp
    show ?thesis
    proof (cases "length (b @ rest) < 4")
      case short: True
      then have "rest = []"
        using assms(2) by (auto simp: invalidEnvPrefix_def prefix_def)
      have "EnvSub_loop env out (s @ rest) = Inr ((out @ butlast (a @ ''%'')) @ ''%'' @ take 4 (b @ rest))"
        apply (subst EnvSub_loop.simps)
        apply (simp only: l prod.case option.case Let_def)
        apply (simp only: Peek_def short if_True prod.case option.case)
        done
      with short \<open>rest = []\<close> show ?thesis
        by (simp add: EnvSub_loop_Nil s)
    next
      case long: False
      have ne: "take 4 (b @ rest) \<noteq> ''ENV[''"
        using not_ENV_after_percent [OF _ assms(2) long] "1.prems" s by simp
      have nb: "\<not> sublist invalidEnvPrefix b"
      proof
        assume "sublist invalidEnvPrefix b"
        then obtain ps ss where "b = ps @ invalidEnvPrefix @ ss"
          unfolding sublist_def by blast
        then have "s = (a @ CHR ''%'' # ps) @ invalidEnvPrefix @ ss"
          by (simp add: s)
        then have "sublist invalidEnvPrefix s"
          unfolding sublist_def by blast
        with "1.prems" show False by simp
      qed
      have ih: "EnvSub_loop env (out @ a @ ''%'') (b @ rest)
                  = EnvSub_loop env ((out @ a @ ''%'') @ b) rest"
        using "1.IH" nb s by simp
      have step: "EnvSub_loop env out (s @ rest) = EnvSub_loop env (out @ a @ ''%'') (b @ rest)"
        apply (subst EnvSub_loop.simps)
        apply (simp only: l prod.case option.case Let_def)
        apply (simp only: Peek_def long ne if_False prod.case option.case)
        apply simp
        done
      show ?thesis
        unfolding step ih by (simp add: s)
    qed
  qed
qed

lemma render_follow:
  "wellFormed (Lit s # ts) \<Longrightarrow> render ts = [] \<or> prefix invalidEnvPrefix (render ts)"
  by (cases ts rule: render.cases) (auto simp: invalidEnvPrefix_def)

lemma EnvSub_loop_tokens:
  assumes "wellFormed ts"
    and "rest = [] \<or> prefix invalidEnvPrefix rest"
  shows "EnvSub_loop env out (render ts @ rest) = EnvSub_loop env (out @ expand env ts) rest"
  using assms(1)
proof (induction ts arbitrary: out rule: render.induct)
  case 1
  show ?case by simp
next
  case (2 s ts)
  have follow: "render ts @ rest = [] \<or> prefix invalidEnvPrefix (render ts @ rest)"
    using render_follow [OF "2.prems"] assms(2) by (auto simp: prefix_def)
  have "EnvSub_loop env out (s @ render ts @ rest) = EnvSub_loop env (out @ s) (render ts @ rest)"
    using EnvSub_loop_literal [OF _ follow] "2.prems" by simp
  also have "\<dots> = EnvSub_loop env ((out @ s) @ expand env ts) rest"
    using "2.IH" "2.prems" by simp
  finally show ?case by simp
next
  case (3 x ts)
  then have v: "validName x" and w: "wellFormed ts" by simp_all
  have "EnvSub_loop env out (''%ENV['' @ x @ '']'' @ render ts @ rest)
          = EnvSub_loop env (out @ Getenv env x) (render ts @ rest)"
    using EnvSub_loop_reference [of x env out "render ts @ rest"] v
    by (simp add: validName_def)
  also have "\<dots> = EnvSub_loop env ((out @ Getenv env x) @ expand env ts) rest"
    using "3.IH" w by simp
  finally show ?case by simp
qed

lemma EnvSub_loop_unclosed:
  assumes "CHR '']'' \<notin> set b"
  shows "EnvSub_loop env out (''%ENV['' @ b) = Inl ErrMissingCloseDelim"
proof -
  have r1: "ReadBytes CHR ''%'' (''%ENV['' @ b) = (''%'', None, ''ENV['' @ b)"
    using ReadBytes_found [of "CHR ''%''" "[]"] by simp
  have r2: "ReadBytes CHR ''['' (''ENV['' @ b) = (''ENV['', None, b)"
    using ReadBytes_found [of "CHR ''[''" "''ENV''" b] by simp
  have r3: "ReadBytes CHR '']'' b = (b, Some EOF, [])"
    using ReadBytes_absent [OF assms] .
  show ?thesis
    apply (subst EnvSub_loop.simps)
    apply (simp only: r1 r2 r3 prod.case option.case Let_def)
    apply (simp add: Peek_def del: One_nat_def)
    done
qed

text \<open>Conversely, a text that the scan accepts is made of well-formed tokens.\<close>

lemma prefix_occurrence:
  assumes a: "CHR ''%'' \<notin> set a"
    and sub: "sublist invalidEnvPrefix (a @ CHR ''%'' # b)"
  shows "prefix ''ENV['' b \<or> sublist invalidEnvPrefix b"
proof -
  from sub obtain ps ss where e: "a @ CHR ''%'' # b = ps @ ''%ENV['' @ ss"
    unfolding sublist_def invalidEnvPrefix_def by blast
  then consider us where "a = ps @ us" "us @ CHR ''%'' # b = ''%ENV['' @ ss"
    | us where "a @ us = ps" "CHR ''%'' # b = us @ ''%ENV['' @ ss"
    by (auto simp: append_eq_append_conv2)
  then show ?thesis
  proof cases
    case 1
    show ?thesis
    proof (cases us)
      case Nil
      with 1 show ?thesis by (simp add: prefix_def)
    next
      case (Cons u us')
      with 1 have "u = CHR ''%''" by simp
      with 1 Cons a show ?thesis by simp
    qed
  next
    case 2
    show ?thesis
    proof (cases us)
      case Nil
      with 2 show ?thesis by (simp add: prefix_def)
    next
      case (Cons u us')
      with 2 have "b = us' @ invalidEnvPrefix @ ss" by (simp add: invalidEnvPrefix_def)
      then show ?thesis unfolding sublist_def by blast
    qed
  qed
qed

lemma no_percent_no_prefix:
  "CHR ''%'' \<notin> set a \<Longrightarrow> \<not> sublist invalidEnvPrefix a"
proof
  assume "CHR ''%'' \<notin> set a" and "sublist invalidEnvPrefix a"
  then show False
    by (auto simp: sublist_def invalidEnvPrefix_def)
qed

lemma EnvSub_loop_accepts:
  "EnvSub_loop env out s = Inr r \<Longrightarrow>
     \<exists>ts. wellFormed ts \<and> render ts = s \<and> r = out @ expand env ts"
proof (induction s arbitrary: out r rule: length_induct)
  case (1 s)
  show ?case
  proof (cases "CHR ''%'' \<in> set s")
    case False
    then have "EnvSub_loop env out s = Inr (out @ s)"
      by (simp add: EnvSub_loop.simps [of env out s] ReadBytes_absent)
    with "1.prems" have "r = out @ s" by simp
    moreover have "wellFormed [Lit s]"
      using no_percent_no_prefix [OF False] by simp
    ultimately show ?thesis
      by (intro exI [of _ "[Lit s]"]) simp
  next
    case True
    then obtain a b where s: "s = a @ CHR ''%'' # b" and a: "CHR ''%'' \<notin> set a"
      by (meson split_list_first)
    have l: "ReadBytes CHR ''%'' s = (a @ ''%'', None, b)"
      unfolding s using ReadBytes_found [OF a, of b] by simp
    show ?thesis
    proof (cases "length b < 4")
      case short: True
      have "EnvSub_loop env out s = Inr ((out @ butlast (a @ ''%'')) @ ''%'' @ take 4 b)"
        apply (subst EnvSub_loop.simps)
        apply (simp only: l prod.case option.case Let_def)
        apply (simp only: Peek_def short if_True prod.case option.case)
        done
      with "1.prems" short have r: "r = out @ s" by (simp add: s)
      have "\<not> sublist invalidEnvPrefix s"
      proof
        assume "sublist invalidEnvPrefix s"
        then have "prefix ''ENV['' b \<or> sublist invalidEnvPrefix b"
          unfolding s using prefix_occurrence [OF a] by blast
        then have "4 \<le> length b"
          by (auto simp: prefix_def sublist_def invalidEnvPrefix_def)
        with short show False by simp
      qed
      then have "wellFormed [Lit s]" by simp
      with r show ?thesis
        by (intro exI [of _ "[Lit s]"]) simp
    next
      case long: False
      show ?thesis
      proof (cases "take 4 b = ''ENV[''")
        case env: True
        then obtain in2 where b: "b = ''ENV['' @ in2"
          by (metis append_take_drop_id)
        have r2: "ReadBytes CHR ''['' b = (''ENV['', None, in2)"
          unfolding b using ReadBytes_found [of "CHR ''[''" "''ENV''" in2] by simp
        have unfold: "EnvSub_loop env out s =
            (case ReadBytes CHR '']'' in2 of
               (chunk2, Some err, _) \<Rightarrow> Inl ErrMissingCloseDelim
             | (chunk2, None, in3) \<Rightarrow>
                 (if IndexAny chunk2 invalidEnvChars \<noteq> - 1
                     \<or> Index chunk2 invalidEnvPrefix \<noteq> - 1
                  then Inl ErrInvalidChars
                  else EnvSub_loop env ((out @ butlast (a @ ''%''))
                         @ Getenv env (butlast chunk2)) in3))"
          apply (subst EnvSub_loop.simps)
          apply (simp only: l prod.case option.case Let_def)
          apply (simp only: Peek_def long env if_True if_False prod.case option.case r2
              simp_thms)
          done
        have closed: "CHR '']'' \<in> set in2"
        proof (rule ccontr)
          assume "CHR '']'' \<notin> set in2"
          then have "ReadBytes CHR '']'' in2 = (in2, Some EOF, [])"
            by (rule ReadBytes_absent)
          with unfold "1.prems" show False by simp
        qed
        then obtain x in3 where in2: "in2 = x @ CHR '']'' # in3" and x: "CHR '']'' \<notin> set x"
          by (meson split_list_first)
        have r3: "ReadBytes CHR '']'' in2 = (x @ '']'', None, in3)"
          unfolding in2 using ReadBytes_found [OF x, of in3] by simp
        have any: "(IndexAny (x @ '']'') invalidEnvChars \<noteq> - 1) = hasInvalidChar x"
          by (auto simp: IndexAny_iff hasInvalidChar_def list_ex_iff invalidEnvChars_def)
        have sub: "(Index (x @ '']'') invalidEnvPrefix \<noteq> - 1) = sublist invalidEnvPrefix x"
          unfolding Index_iff using sublist_snoc_bracket [of x] sublist_append by blast
        from unfold "1.prems" have ok: "\<not> hasInvalidChar x" "\<not> sublist invalidEnvPrefix x"
          and rec: "EnvSub_loop env (out @ a @ Getenv env x) in3 = Inr r"
          by (auto simp: r3 any sub split: if_splits)
        have "length in3 < length s"
          by (simp add: s b in2)
        with "1.IH" rec obtain ts3 where ts3: "wellFormed ts3" "render ts3 = in3"
          "r = (out @ a @ Getenv env x) @ expand env ts3"
          by blast
        have "wellFormed (Lit a # Var x # ts3)"
          using ts3(1) ok x no_percent_no_prefix [OF a] by (simp add: validName_def)
        moreover have "render (Lit a # Var x # ts3) = s"
          by (simp add: s b in2 ts3(2))
        moreover have "r = out @ expand env (Lit a # Var x # ts3)"
          by (simp add: ts3(3))
        ultimately show ?thesis by blast
      next
        case other: False
        have unfold: "EnvSub_loop env out s = EnvSub_loop env ((out @ butlast (a @ ''%'')) @ ''%'') b"
          apply (subst EnvSub_loop.simps)
          apply (simp only: l prod.case option.case Let_def)
          apply (simp only: Peek_def long other if_False prod.case option.case)
          done
        have "length b < length s" by (simp add: s)
        with "1.IH" "1.prems" unfold obtain ts1 where ts1: "wellFormed ts1" "render ts1 = b"
          "r = ((out @ butlast (a @ ''%'')) @ ''%'') @ expand env ts1"
          by force
        show ?thesis
        proof (cases ts1 rule: render.cases)
          case 1
          with ts1(2) long show ?thesis by simp
        next
          case (2 c ts')
          have nc: "\<not> sublist invalidEnvPrefix c"
            using ts1(1) 2 by simp
          have "\<not> sublist invalidEnvPrefix (a @ CHR ''%'' # c)"
          proof
            assume "sublist invalidEnvPrefix (a @ CHR ''%'' # c)"
            then have "prefix ''ENV['' c"
              using prefix_occurrence [OF a] nc by blast
            then have "take 4 b = ''ENV[''"
              using ts1(2) 2 by (auto simp: prefix_def)
            with other show False by simp
          qed
          then have "wellFormed (Lit (a @ CHR ''%'' # c) # ts')"
            using ts1(1) 2 by simp
          moreover have "render (Lit (a @ CHR ''%'' # c) # ts') = s"
            using ts1(2) 2 by (simp add: s)
          moreover have "r = out @ expand env (Lit (a @ CHR ''%'' # c) # ts')"
            using ts1(3) 2 by simp
          ultimately show ?thesis by blast
        next
          case (3 y ts')
          have "\<not> sublist invalidEnvPrefix (a @ ''%'')"
          proof
            assume "sublist invalidEnvPrefix (a @ ''%'')"
            then have "prefix ''ENV['' [] \<or> sublist invalidEnvPrefix []"
              using prefix_occurrence [OF a, of "[]"] by simp
            then show False by (simp add: invalidEnvPrefix_def)
          qed
          then have "wellFormed (Lit (a @ ''%'') # ts1)"
            using ts1(1) 3 by simp
          moreover have "render (Lit (a @ ''%'') # ts1) = s"
            using ts1(2) by (simp add: s)
          moreover have "r = out @ expand env (Lit (a @ ''%'') # ts1)"
            using ts1(3) by simp
          ultimately show ?thesis by blast
        qed
      qed
    qed
  qed
qed


text \<open>
  C7: a text made of literal stretches and of references \<open>%ENV[X]\<close> with valid names
  comes out with every reference replaced by the value of \<open>X\<close> (nothing when \<open>X\<close> is not
  set) and every literal stretch, its \<open>%\<close> characters included, as it was; the values
  are not scanned again. Every text for which there is an output is such a text. (The
  other texts are those that fail.)
\<close>

theorem EnvSub_replaces_references:
  "(wellFormed ts \<longrightarrow> EnvSub env (render ts) = Inr (expand env ts))
   \<and> (EnvSub env s = Inr out \<longrightarrow>
        (\<exists>ts. wellFormed ts \<and> render ts = s \<and> expand env ts = out))"
proof (intro conjI impI)
  assume "wellFormed ts"
  then show "EnvSub env (render ts) = Inr (expand env ts)"
    using EnvSub_loop_tokens [of ts "[]" env "[]"]
    by (simp add: EnvSub_def EnvSub_loop_Nil)
next
  assume "EnvSub env s = Inr out"
  then show "\<exists>ts. wellFormed ts \<and> render ts = s \<and> expand env ts = out"
    using EnvSub_loop_accepts [of env "[]" s out] by (auto simp: EnvSub_def)
qed

theorem EnvSub_replaces_references_witness:
  "wellFormed [Lit ''a%b '', Var ''X'', Lit '' 100% '', Var ''Z'', Lit ''%E'']
   \<and> EnvSub [''X'' \<mapsto> ''%ENV[Y]'', ''Y'' \<mapsto> ''no''] ''a%b %ENV[X] 100% %ENV[Z]%E''
       = Inr ''a%b %ENV[Y] 100% %E''
   \<and> (\<exists>ts. wellFormed ts \<and> render ts = ''a%b %ENV[X] 100% %ENV[Z]%E''
          \<and> expand [''X'' \<mapsto> ''%ENV[Y]'', ''Y'' \<mapsto> ''no''] ts = ''a%b %ENV[Y] 100% %E'')"
proof -
  let ?ts = "[Lit ''a%b '', Var ''X'', Lit '' 100% '', Var ''Z'', Lit ''%E'']"
  let ?env = "[''X'' \<mapsto> ''%ENV[Y]'', ''Y'' \<mapsto> ''no'']"
  have wf: "wellFormed ?ts"
    by code_simp
  have run: "EnvSub ?env (render ?ts) = Inr (expand ?env ?ts)"
    using EnvSub_replaces_references [of ?ts ?env] wf by blast
  have r: "render ?ts = ''a%b %ENV[X] 100% %ENV[Z]%E''"
    by simp
  have e: "expand ?env ?ts = ''a%b %ENV[Y] 100% %E''"
    by (simp add: Getenv_def)
  have conv: "\<exists>ts. wellFormed ts \<and> render ts = ''a%b %ENV[X] 100% %ENV[Z]%E''
          \<and> expand ?env ts = ''a%b %ENV[Y] 100% %E''"
    using EnvSub_replaces_references [of _ ?env "''a%b %ENV[X] 100% %ENV[Z]%E''"
        "''a%b %ENV[Y] 100% %E''"] run
    unfolding r e by blast
  show ?thesis
    using wf run conv unfolding r e by blast
qed

text \<open>
  The claim C8 as it stands fails where an unclosed \<open>%ENV[\<close> comes after a reference
  with an invalid name: the scan stops at the invalid name.
\<close>

theorem EnvSub_unclosed_after_invalid:
  "EnvSub Map.empty ''%ENV[a b]%ENV[c'' = Inl ErrInvalidChars
   \<and> ErrInvalidChars \<noteq> ErrMissingCloseDelim
   \<and> CHR '']'' \<notin> set ''c''"
proof -
  have "hasInvalidChar ''a b''"
    by (simp add: hasInvalidChar_def invalidEnvChars_def)
  then have "EnvSub_loop Map.empty [] (''%ENV['' @ ''a b'' @ '']'' @ ''%ENV[c'') = Inl ErrInvalidChars"
    by (subst EnvSub_loop_reference) simp_all
  then show ?thesis
    by (simp add: EnvSub_def ErrInvalidChars_def ErrMissingCloseDelim_def)
qed

text \<open>
  C8, amended: the scan goes from left to right, and the first reference that it cannot
  replace decides. After a text of well-formed tokens, an \<open>%ENV[\<close> that no \<open>]\<close> follows
  gives the missing-delimiter error, and an \<open>%ENV[\<close> whose name (the text up to the
  next \<open>]\<close>) holds a space, a tab, a carriage return, a newline or another \<open>%ENV[\<close>
  gives the invalid-characters error.
\<close>

theorem EnvSub_errors:
  assumes "wellFormed ts"
  shows "(CHR '']'' \<notin> set b \<longrightarrow>
            EnvSub env (render ts @ ''%ENV['' @ b) = Inl ErrMissingCloseDelim)
       \<and> (CHR '']'' \<notin> set x \<and> (hasInvalidChar x \<or> sublist invalidEnvPrefix x) \<longrightarrow>
            EnvSub env (render ts @ ''%ENV['' @ x @ '']'' @ rest) = Inl ErrInvalidChars)"
proof (intro conjI impI)
  assume "CHR '']'' \<notin> set b"
  then show "EnvSub env (render ts @ ''%ENV['' @ b) = Inl ErrMissingCloseDelim"
    using EnvSub_loop_tokens [OF assms, of "''%ENV['' @ b" env "[]"]
      EnvSub_loop_unclosed [of b env "expand env ts"]
    by (simp add: EnvSub_def invalidEnvPrefix_def)
next
  assume "CHR '']'' \<notin> set x \<and> (hasInvalidChar x \<or> sublist invalidEnvPrefix x)"
  then show "EnvSub env (render ts @ ''%ENV['' @ x @ '']'' @ rest) = Inl ErrInvalidChars"
    using EnvSub_loop_tokens [OF assms, of "''%ENV['' @ x @ '']'' @ rest" env "[]"]
      EnvSub_loop_reference [of x env "expand env ts" rest]
    by (simp add: EnvSub_def invalidEnvPrefix_def)
qed

theorem EnvSub_errors_witness:
  "wellFormed [Lit ''dir = '', Var ''HOME'']
   \<and> CHR '']'' \<notin> set ''TMP''
   \<and> EnvSub Map.empty ''dir = %ENV[HOME]%ENV[TMP'' = Inl ErrMissingCloseDelim
   \<and> CHR '']'' \<notin> set ''MY VAR'' \<and> hasInvalidChar ''MY VAR''
   \<and> EnvSub Map.empty ''dir = %ENV[HOME]%ENV[MY VAR]/x'' = Inl ErrInvalidChars
   \<and> CHR '']'' \<notin> set ''A%ENV[B'' \<and> sublist invalidEnvPrefix ''A%ENV[B''
   \<and> EnvSub Map.empty ''dir = %ENV[HOME]%ENV[A%ENV[B]]'' = Inl ErrInvalidChars"
proof -
  let ?ts = "[Lit ''dir = '', Var ''HOME'']"
  have wf: "wellFormed ?ts"
    by code_simp
  have inv: "hasInvalidChar ''MY VAR''"
    by (simp add: hasInvalidChar_def invalidEnvChars_def)
  have nest: "sublist invalidEnvPrefix ''A%ENV[B''"
    by code_simp
  have r: "render ?ts = ''dir = %ENV[HOME]''"
    by simp
  have a: "EnvSub Map.empty (render ?ts @ ''%ENV['' @ ''TMP'') = Inl ErrMissingCloseDelim"
    using EnvSub_errors [OF wf, of "''TMP''" Map.empty] by simp
  have b: "EnvSub Map.empty (render ?ts @ ''%ENV['' @ ''MY VAR'' @ '']'' @ ''/x'')
             = Inl ErrInvalidChars"
    using EnvSub_errors [OF wf, of _ Map.empty "''MY VAR''" "''/x''"] inv by simp
  have c: "EnvSub Map.empty (render ?ts @ ''%ENV['' @ ''A%ENV[B'' @ '']'' @ '']'')
             = Inl ErrInvalidChars"
    using EnvSub_errors [OF wf, of _ Map.empty "''A%ENV[B''" "'']''"] nest by simp
  show ?thesis
    using wf inv nest a b c unfolding r by simp
qed

section \<open>Unknown configuration keys\<close>

lemma NewPluginMaker_Inr:
  assumes "NewPluginMaker reg nm sec = Inr m"
  shows "name m = nm" and "tomlSection m = sec" and "configStruct m = NilConfig"
    and "\<not> configPrepped m" and "plugin m = None"
    and "reg (Typ (commonConfig m)) = Some (constructor m)"
    and "category m = getPluginCategory (Typ (commonConfig m))"
    and "category m \<noteq> []"
  using assms
  by (auto simp: NewPluginMaker_def Let_def split: sum.splits option.splits if_splits)

lemma unknownOptionRegex_unknownKeyText:
  assumes "k \<noteq> []" and "\<not> list_ex isSpace k"
  shows "unknownOptionRegex (unknownKeyText k) = Some k"
proof -
  let ?pre = "''Configuration contains key [''"
  let ?suf = "'' which doesn't exist in struct''"
  have t: "unknownKeyText k = ?pre @ k @ CHR '']'' # ?suf"
    by (simp add: unknownKeyText_def)
  have run: "takeWhile (\<lambda>c. \<not> isSpace c) (k @ CHR '']'' # ?suf) = k @ '']''"
    using assms(2) by (subst takeWhile_append2) (auto simp: list_ex_iff isSpace_def)
  have upto: "rev (dropWhile (\<lambda>c. c \<noteq> CHR '']'') (rev (k @ '']''))) = k @ '']''"
    by simp
  have "prefix ?pre (unknownKeyText k)"
    unfolding t by (rule prefixI) simp
  moreover have "drop (length ?pre) (unknownKeyText k) = k @ CHR '']'' # ?suf"
    unfolding t by simp
  ultimately show ?thesis
    using assms(1)
    by (simp only: unknownOptionRegex_def Let_def run upto if_True)
       (cases k, simp_all)
qed

lemma makeConfig_fresh:
  assumes "plugin m = None" and "isPlugin (constructor m)"
  shows "\<exists>ob. makeConfig m h =
           (Return (m\<lparr>configStruct := (case hasConfigStruct (constructor m) of
                                           Some cs \<Rightarrow> cs | None \<Rightarrow> PluginConfigMap []),
                      plugin := Some (length h)\<rparr>), h @ [ob])
         \<and> dynType ob = constructor m"
  using assms
  by (auto simp: makeConfig_def ensurePlugin_def makePlugin_def Let_def deref_def
      split: option.splits)

lemma hekaParams_update [simp]:
  "hekaParams (m\<lparr>configStruct := c, plugin := p\<rparr>) = hekaParams m"
  by (simp add: hekaParams_def)

lemma PrepConfig_fresh_strict:
  assumes "configStruct m = NilConfig" and "plugin m = None" and "\<not> configPrepped m"
    and "isPlugin (constructor m)" and "hasConfigStruct (constructor m) = Some cs"
  shows "fst (PrepConfig m h) =
     (case PrimitiveDecodeStrict (tomlSection m) cs (hekaParams m) of
        Inl err \<Rightarrow>
          (case unknownOptionRegex err of
             Some key \<Rightarrow>
               Return (Some (''unknown config setting for '' @ apos @ name m @ apos
                             @ '': '' @ key))
           | None \<Rightarrow> Return (Some err))
      | Inr cfg \<Rightarrow> Return None)"
proof -
  from makeConfig_fresh [OF assms(2) assms(4), of h] assms(5)
  obtain ob where mk: "makeConfig m h =
      (Return (m\<lparr>configStruct := cs, plugin := Some (length h)\<rparr>), h @ [ob])"
    and ob: "dynType ob = constructor m"
    by auto
  show ?thesis
    using assms(1,3,5) ob
    by (simp add: PrepConfig_def mk deref_def split: sum.splits option.splits)
qed

lemma PrepConfig_fresh_plain:
  assumes "configStruct m = NilConfig" and "plugin m = None" and "\<not> configPrepped m"
    and "isPlugin (constructor m)" and "hasConfigStruct (constructor m) = None"
    and "tomlSection m = TTable tmap"
  shows "fst (PrepConfig m h) = Return None"
    and "configStruct (fst (snd (PrepConfig m h))) = PluginConfigMap tmap"
    and "configPrepped (fst (snd (PrepConfig m h)))"
proof -
  from makeConfig_fresh [OF assms(2) assms(4), of h] assms(5)
  obtain ob where mk: "makeConfig m h =
      (Return (m\<lparr>configStruct := PluginConfigMap [], plugin := Some (length h)\<rparr>), h @ [ob])"
    and ob: "dynType ob = constructor m"
    by auto
  have "PrepConfig m h =
      (Return None,
       m\<lparr>configStruct := PluginConfigMap tmap, configPrepped := True,
          plugin := Some (length h)\<rparr>, h @ [ob])"
    using assms(1,3,5,6) ob
    by (simp add: PrepConfig_def mk deref_def PrimitiveDecode_def)
  then show "fst (PrepConfig m h) = Return None"
    and "configStruct (fst (snd (PrepConfig m h))) = PluginConfigMap tmap"
    and "configPrepped (fst (snd (PrepConfig m h)))"
    by simp_all
qed

text \<open>
  C4, for a maker as \<open>NewPluginMaker\<close> returns it and a section whose keys are keys of
  the TOML parser. Where the plugin has a configuration struct and the section holds a
  key that is neither a field of the struct nor a key of the common structs, \<open>PrepConfig\<close>
  returns the error \<open>unknown config setting for '<name>': <key>\<close>, with such a key of
  the section. Where the plugin has no configuration struct, \<open>PrepConfig\<close> succeeds and
  keeps every key of the section in the generic map.
\<close>

theorem PrepConfig_unknown_key:
  assumes "NewPluginMaker reg nm (TTable tmap) = Inr m"
    and "isPlugin (constructor m)"
    and "list_all tomlKey (map fst tmap)"
  shows "(hasConfigStruct (constructor m) = Some (ConfigStruct fs)
            \<and> list_ex (\<lambda>k. \<not> list_ex (\<lambda>f. keyFold f k) (map fst fs)
                           \<and> \<not> list_ex (\<lambda>g. keyFold g k) (hekaParams m)) (map fst tmap)
          \<longrightarrow> (\<exists>k. k \<in> set (map fst tmap)
                   \<and> \<not> list_ex (\<lambda>f. keyFold f k) (map fst fs)
                   \<and> \<not> list_ex (\<lambda>g. keyFold g k) (hekaParams m)
                   \<and> fst (PrepConfig m h) =
                       Return (Some (''unknown config setting for '' @ apos @ nm @ apos
                                     @ '': '' @ k))))
       \<and> (hasConfigStruct (constructor m) = None
          \<longrightarrow> fst (PrepConfig m h) = Return None
              \<and> configStruct (fst (snd (PrepConfig m h))) = PluginConfigMap tmap)"
proof (intro conjI impI)
  note mk = NewPluginMaker_Inr [OF assms(1)]
  assume a: "hasConfigStruct (constructor m) = Some (ConfigStruct fs)
            \<and> list_ex (\<lambda>k. \<not> list_ex (\<lambda>f. keyFold f k) (map fst fs)
                           \<and> \<not> list_ex (\<lambda>g. keyFold g k) (hekaParams m)) (map fst tmap)"
  then have "unknownKeys tmap (map fst fs) (hekaParams m) \<noteq> []"
    by (auto simp: unknownKeys_def filter_empty_conv list_ex_iff)
  then obtain k ks where uk: "unknownKeys tmap (map fst fs) (hekaParams m) = k # ks"
    by (cases "unknownKeys tmap (map fst fs) (hekaParams m)") auto
  then have "k \<in> set (unknownKeys tmap (map fst fs) (hekaParams m))"
    by simp
  then have k: "k \<in> set (map fst tmap)" "\<not> list_ex (\<lambda>f. keyFold f k) (map fst fs)"
    "\<not> list_ex (\<lambda>g. keyFold g k) (hekaParams m)"
    by (simp_all add: unknownKeys_def)
  from k(1) assms(3) have "tomlKey k"
    by (auto simp: list_all_iff)
  then have rx: "unknownOptionRegex (unknownKeyText k) = Some k"
    by (simp add: tomlKey_def unknownOptionRegex_unknownKeyText)
  have strict: "PrimitiveDecodeStrict (tomlSection m) (ConfigStruct fs) (hekaParams m)
                  = Inl (unknownKeyText k)"
    by (simp add: PrimitiveDecodeStrict_def mk(2) uk)
  have "fst (PrepConfig m h) =
          Return (Some (''unknown config setting for '' @ apos @ nm @ apos @ '': '' @ k))"
    using PrepConfig_fresh_strict [OF mk(3) mk(5) mk(4) assms(2), of "ConfigStruct fs" h] a
    by (simp add: strict rx mk(1))
  with k show "\<exists>k. k \<in> set (map fst tmap)
                   \<and> \<not> list_ex (\<lambda>f. keyFold f k) (map fst fs)
                   \<and> \<not> list_ex (\<lambda>g. keyFold g k) (hekaParams m)
                   \<and> fst (PrepConfig m h) =
                       Return (Some (''unknown config setting for '' @ apos @ nm @ apos
                                     @ '': '' @ k))"
    by blast
next
  note mk = NewPluginMaker_Inr [OF assms(1)]
  assume n: "hasConfigStruct (constructor m) = None"
  show "fst (PrepConfig m h) = Return None"
    using PrepConfig_fresh_plain(1) [OF mk(3) mk(5) mk(4) assms(2) n mk(2)] .
  show "configStruct (fst (snd (PrepConfig m h))) = PluginConfigMap tmap"
    using PrepConfig_fresh_plain(2) [OF mk(3) mk(5) mk(4) assms(2) n mk(2)] .
qed


theorem PrepConfig_unknown_key_witness:
  "map_sum id name (NewPluginMaker registry ''TcpInput''
      (TTable [(''address'', TString '':5565''), (''decoder'', TString ''ProtobufDecoder''),
               (''Ticker_Interval'', TInt 5), (''adress'', TString '':5566'')]))
     = Inr ''TcpInput''
   \<and> list_all tomlKey [''address'', ''decoder'', ''Ticker_Interval'', ''adress'']
   \<and> (case NewPluginMaker registry ''TcpInput''
      (TTable [(''address'', TString '':5565''), (''decoder'', TString ''ProtobufDecoder''),
               (''Ticker_Interval'', TInt 5), (''adress'', TString '':5566'')]) of
         Inl e \<Rightarrow> Return None
       | Inr m \<Rightarrow> fst (PrepConfig m []))
     = Return (Some ''unknown config setting for 'TcpInput': adress'')
   \<and> map_sum id name (NewPluginMaker registry ''CounterFilter''
      (TTable [(''message_matcher'', TString ''TRUE''), (''anything'', TInt 1)]))
     = Inr ''CounterFilter''
   \<and> (case NewPluginMaker registry ''CounterFilter''
      (TTable [(''message_matcher'', TString ''TRUE''), (''anything'', TInt 1)]) of
         Inl e \<Rightarrow> Return (Some e)
       | Inr m \<Rightarrow> fst (PrepConfig m []))
     = Return None"
proof -
  let ?t1 = "[(''address'', TString '':5565''), (''decoder'', TString ''ProtobufDecoder''),
               (''Ticker_Interval'', TInt 5), (''adress'', TString '':5566'')]"
  let ?t2 = "[(''message_matcher'', TString ''TRUE''), (''anything'', TInt 1)]"
  let ?fs = "[(''address'', TString '':5565''), (''keep_alive'', TBool False)]"
  obtain m1 where m1: "NewPluginMaker registry ''TcpInput'' (TTable ?t1) = Inr m1"
    and c1: "constructor m1 = structType" and n1: "name m1 = ''TcpInput''"
    and p1: "hekaParams m1 = [''type'', ''ticker_interval'', ''Decoder'',
        ''synchronous_decode'', ''send_decode_failures'', ''Retries'']"
    by (simp add: NewPluginMaker_def decodeCommonConfig_def Let_def
      unifyString_def insensitiveGet_def registry_def getPluginCategory_def
      suffix_to_prefix decodeCommonInput_def unifyUint_def unifyBoolPtr_def
      unifyRetryOptions_def keyFold_def hekaParams_def)
  obtain m2 where m2: "NewPluginMaker registry ''CounterFilter'' (TTable ?t2) = Inr m2"
    and c2: "constructor m2 = plainType" and n2: "name m2 = ''CounterFilter''"
    by (simp add: NewPluginMaker_def decodeCommonConfig_def Let_def
      unifyString_def insensitiveGet_def registry_def getPluginCategory_def
      suffix_to_prefix decodeCommonFO_def unifyUint_def unifyBoolPtr_def
      unifyRetryOptions_def keyFold_def)
  have k1: "list_all tomlKey (map fst ?t1)"
    by (simp add: tomlKey_def isSpace_def)
  have k2: "list_all tomlKey (map fst ?t2)"
    by (simp add: tomlKey_def isSpace_def)
  have s1: "hasConfigStruct (constructor m1) = Some (ConfigStruct ?fs)"
    and i1: "isPlugin (constructor m1)"
    by (simp_all add: c1 structType_def)
  have s2: "hasConfigStruct (constructor m2) = None" and i2: "isPlugin (constructor m2)"
    by (simp_all add: c2 plainType_def)
  have ex: "list_ex (\<lambda>k. \<not> list_ex (\<lambda>f. keyFold f k) (map fst ?fs)
                           \<and> \<not> list_ex (\<lambda>g. keyFold g k) (hekaParams m1)) (map fst ?t1)"
    unfolding p1 by (simp add: keyFold_def)
  have "\<exists>k. k \<in> set (map fst ?t1)
                   \<and> \<not> list_ex (\<lambda>f. keyFold f k) (map fst ?fs)
                   \<and> \<not> list_ex (\<lambda>g. keyFold g k) (hekaParams m1)
                   \<and> fst (PrepConfig m1 []) =
                       Return (Some (''unknown config setting for '' @ apos @ ''TcpInput'' @ apos
                                     @ '': '' @ k))"
    using PrepConfig_unknown_key [OF m1 i1 k1, of ?fs "[]"] s1 ex by blast
  then have r1: "fst (PrepConfig m1 []) = Return (Some ''unknown config setting for 'TcpInput': adress'')"
    unfolding p1 by (auto simp: keyFold_def apos_def)
  have r2: "fst (PrepConfig m2 []) = Return None"
    using PrepConfig_unknown_key [OF m2 i2 k2, of "[]" "[]"] s2 by blast
  show ?thesis
    using k1 r1 r2 by (simp add: m1 m2 n1 n2)
qed

section \<open>The order of loading\<close>





section \<open>The order of loading\<close>


lemma loadingNames_append [simp]:
  "loadingNames (a @ b) = loadingNames a @ loadingNames b"
  by (induction a rule: loadingNames.induct) simp_all

lemma logOutput_log [simp]:
  "loadingNames (logOutput (log e self)) = loadingNames (logOutput self)"
  by (simp add: log_def)

lemma logOutput_register [simp]: "logOutput (register cat maker self) = logOutput self"
  by (simp add: register_def)

lemma logOutput_addRunner [simp]: "logOutput (addRunner cat nm r self) = logOutput self"
  by (simp add: addRunner_def)








lemma appendMaker_simps [simp]:
  "makersByCategory (appendMaker c maker ls) cat
     = makersByCategory ls cat @ (if cat = c then [maker] else [])"
  "protobufDRegistered (appendMaker c maker ls) = protobufDRegistered ls"
  "protobufERegistered (appendMaker c maker ls) = protobufERegistered ls"
  "errcnt (appendMaker c maker ls) = errcnt ls"
  by (simp_all add: appendMaker_def)








lemma lookupAll_total:
  "\<forall>d \<in> set ordered. mm (nodeName d) \<noteq> None \<Longrightarrow> \<exists>ms. lookupAll mm ordered = Some ms"
  by (induction ordered) auto


















end
